theory Spec2Isabelle
  imports
    Complex_Main
    "HOL-Library.AList"
    "HOL-Library.Char_ord"
    "HOL-Library.List_Lexorder"
    "HOL-Library.Multiset"
begin

section \<open>The Verkada camera site report: data model\<close>

text \<open>
  The program \<^verbatim>\<open>createVerkadaDeviceReport.py\<close> is a linear pipeline:
  paginated fetch, grouping by site, two kinds of bar charts, one PDF report.
  Every raise of the source is a value of \<open>error\<close>; a function that can raise
  returns \<open>error + 'a\<close> with \<open>Inl\<close> for the exception.
\<close>

datatype error =
    ValueError string
  | KeyError string
  | UnboundLocalError string
  | ConnectionError
  | JSONDecodeError

text \<open>
  A device record as the API returns it. The source reads the attributes
  \<^verbatim>\<open>site\<close>, \<^verbatim>\<open>status\<close>, \<^verbatim>\<open>date_added\<close>, \<^verbatim>\<open>name\<close>, \<^verbatim>\<open>model\<close> and \<^verbatim>\<open>serial\<close>;
  the status is a free string (the source never checks it against an enumeration),
  the installation time an integer count of epoch seconds. A record that lacks one of
  these attributes, for which the read would raise, is not a value of this type.
\<close>

record camera =
  name :: string
  model :: string
  serial :: string
  site :: string
  status :: string
  date_added :: int

text \<open>
  Python dictionaries keep insertion order, and the program iterates over them, so a
  dictionary is an association list with distinct keys: \<open>AList.update\<close> overwrites a
  key in place or appends a new key at the end, exactly as \<^verbatim>\<open>d[k] = v\<close> does.
\<close>

type_synonym sites = "(string \<times> camera list) list"

type_synonym counter = "(string \<times> int) list"

definition dict_get :: "(string \<times> 'v) list \<Rightarrow> string \<Rightarrow> error + 'v" where
  "dict_get d k = (case map_of d k of None \<Rightarrow> Inl (KeyError k) | Some v \<Rightarrow> Inr v)"

definition dict_contains :: "(string \<times> 'v) list \<Rightarrow> string \<Rightarrow> bool" where
  "dict_contains d k = (k \<in> set (map fst d))"

text \<open>\<^verbatim>\<open>d[k] += 1\<close>: read the entry (a missing key raises), then store the sum.\<close>

definition dict_incr :: "counter \<Rightarrow> string \<Rightarrow> error + counter" where
  "dict_incr d k =
     (case dict_get d k of
        Inl e \<Rightarrow> Inl e
      | Inr v \<Rightarrow> Inr (AList.update k (v + 1) d))"

section \<open>Constants and the credential check (lines 10--15)\<close>

definition API_URL :: string where
  "API_URL = ''https://api.verkada.com/cameras/v1/devices''"

definition PAGE_LIMIT :: int where
  "PAGE_LIMIT = 200"

definition missing_key_message :: string where
  "missing_key_message =
     ''Command REST API key not found. Please set the VERKADA_API_KEY environment variable.''"

text \<open>
  \<^verbatim>\<open>os.getenv\<close> gives \<^verbatim>\<open>None\<close> for an unset variable; \<^verbatim>\<open>not API_KEY\<close> holds for
  \<^verbatim>\<open>None\<close> and for the empty string. The environment is a map from names to values.
\<close>

definition load_api_key :: "(string \<rightharpoonup> string) \<Rightarrow> error + string" where
  "load_api_key env =
     (case env ''VERKADA_API_KEY'' of
        None \<Rightarrow> Inl (ValueError missing_key_message)
      | Some k \<Rightarrow> if k = [] then Inl (ValueError missing_key_message) else Inr k)"

section \<open>The fetcher (lines 17--31)\<close>

text \<open>
  One GET request: the URL, the two headers and the two query parameters. The server is
  the outside world: a state \<open>'w\<close> and a function that answers a request and moves to
  the next state. An answer is one of the four things the loop body can meet:
  \<^verbatim>\<open>requests.get\<close> raises, \<^verbatim>\<open>response.json()\<close> raises, the object has no
  \<^verbatim>\<open>cameras\<close> entry (as the body of an error status has none; the status code is
  never looked at), or it has one, a list of device records.
\<close>

record request =
  req_url :: string
  req_api_key :: string
  req_accept :: string
  req_page_token :: int
  req_page_limit :: int

datatype response =
    TransportFailure
  | InvalidJSON
  | MissingCameras
  | Cameras "camera list"

type_synonym 'w api = "'w \<Rightarrow> request \<Rightarrow> response \<times> 'w"

definition page_request :: "string \<Rightarrow> int \<Rightarrow> request" where
  "page_request key page =
     \<lparr>req_url = API_URL, req_api_key = key, req_accept = ''application/json'',
      req_page_token = page, req_page_limit = PAGE_LIMIT\<rparr>"

text \<open>
  The \<^verbatim>\<open>while True\<close> loop. It has no bound of its own: against a server that always
  answers full pages it never returns, which is the value \<open>None\<close>. A returned value is
  the outcome (the exception or the camera list) and the requests issued, in order.
\<close>

partial_function (option) fetch_loop ::
  "'w api \<Rightarrow> string \<Rightarrow> 'w \<Rightarrow> camera list \<Rightarrow> int \<Rightarrow> request list
     \<Rightarrow> ((error + camera list) \<times> request list) option" where
  "fetch_loop srv key w cameras page sent =
     (let req = page_request key page;
          sent' = sent @ [req]
      in case srv w req of
           (TransportFailure, w') \<Rightarrow> Some (Inl ConnectionError, sent')
         | (InvalidJSON, w') \<Rightarrow> Some (Inl JSONDecodeError, sent')
         | (MissingCameras, w') \<Rightarrow> Some (Inl (KeyError ''cameras''), sent')
         | (Cameras data, w') \<Rightarrow>
             (let cameras' = cameras @ data
              in if int (length data) < PAGE_LIMIT then Some (Inr cameras', sent')
                 else fetch_loop srv key w' cameras' (page + 1) sent'))"

definition fetch_camera_data ::
  "'w api \<Rightarrow> string \<Rightarrow> 'w \<Rightarrow> ((error + camera list) \<times> request list) option" where
  "fetch_camera_data srv key w = fetch_loop srv key w [] 1 []"

text \<open>
  What a server answers to a given list of requests, from a given state: the means to
  speak of "the sequence of pages" the fetcher is given.
\<close>

fun replies :: "'w api \<Rightarrow> 'w \<Rightarrow> request list \<Rightarrow> response list" where
  "replies srv w [] = []"
| "replies srv w (r # rs) = fst (srv w r) # replies srv (snd (srv w r)) rs"

text \<open>The page tokens \<open>p, p + 1, \<dots>, p + n - 1\<close>.\<close>

definition tokens_from :: "int \<Rightarrow> nat \<Rightarrow> int list" where
  "tokens_from p n = map (\<lambda>i. p + int i) [0..<n]"

section \<open>The aggregator: grouping by site (lines 33--40)\<close>

text \<open>
  One pass over the device list. A site label seen for the first time gets an empty
  list at the end of the dictionary; the device is then appended to its site's list
  (\<^verbatim>\<open>sites[site].append(camera)\<close>: the entry exists by the line before, so
  \<open>AList.map_entry\<close> always finds it).
\<close>

fun group_loop :: "sites \<Rightarrow> camera list \<Rightarrow> sites" where
  "group_loop sites [] = sites"
| "group_loop sites (c # cs) =
     (let s = site c;
          sites1 = (if \<not> dict_contains sites s then AList.update s [] sites else sites)
      in group_loop (AList.map_entry s (\<lambda>l. l @ [c]) sites1) cs)"

definition group_cameras_by_site :: "camera list \<Rightarrow> sites" where
  "group_cameras_by_site cameras = group_loop [] cameras"

section \<open>Status charts (lines 42--56)\<close>

text \<open>
  A chart is what the function hands to \<^verbatim>\<open>plt.bar\<close> and \<^verbatim>\<open>plt.savefig\<close>: the
  file name, the bar labels and the bar heights. Drawing and writing the file are the
  plotting library's and are not modelled.
\<close>

record chart =
  chart_file :: string
  chart_labels :: "string list"
  chart_values :: "int list"

text \<open>The inner loop: \<^verbatim>\<open>status_counts[camera['status']] += 1\<close> for each device.\<close>

fun count_statuses :: "counter \<Rightarrow> camera list \<Rightarrow> error + counter" where
  "count_statuses sc [] = Inr sc"
| "count_statuses sc (c # cs) =
     (case dict_incr sc (status c) of
        Inl e \<Rightarrow> Inl e
      | Inr sc' \<Rightarrow> count_statuses sc' cs)"

definition initial_status_counts :: counter where
  "initial_status_counts = [(''Live'', 0), (''Offline'', 0)]"

definition site_status_chart :: "string \<Rightarrow> camera list \<Rightarrow> error + chart" where
  "site_status_chart s cameras =
     (case count_statuses initial_status_counts cameras of
        Inl e \<Rightarrow> Inl e
      | Inr sc \<Rightarrow>
          Inr \<lparr>chart_file = s @ ''_status_bar.png'',
               chart_labels = map fst sc,
               chart_values = map snd sc\<rparr>)"

text \<open>The outer loop visits the sites in dictionary order and stops at the first fault.\<close>

fun create_camera_status_by_site_bar_graph :: "sites \<Rightarrow> error + chart list" where
  "create_camera_status_by_site_bar_graph [] = Inr []"
| "create_camera_status_by_site_bar_graph ((s, cameras) # rest) =
     (case site_status_chart s cameras of
        Inl e \<Rightarrow> Inl e
      | Inr ch \<Rightarrow>
          (case create_camera_status_by_site_bar_graph rest of
             Inl e \<Rightarrow> Inl e
           | Inr chs \<Rightarrow> Inr (ch # chs)))"

section \<open>The date and time library\<close>

text \<open>
  The program calls \<^verbatim>\<open>datetime.now()\<close>, subtracts a \<^verbatim>\<open>timedelta\<close> of days, and
  uses \<^verbatim>\<open>timestamp()\<close>, \<^verbatim>\<open>fromtimestamp\<close> and \<^verbatim>\<open>strftime\<close>. Their results depend
  on the clock and the local time zone, so the library is a parameter: a record of
  these five operations over some type \<open>'dt\<close> of date-times. \<^verbatim>\<open>timestamp()\<close> is a
  float (here a real number); \<^verbatim>\<open>fromtimestamp\<close> raises for an instant whose year
  the library cannot represent.
\<close>

record 'dt datetime_lib =
  dt_now :: 'dt
  dt_minus_days :: "'dt \<Rightarrow> int \<Rightarrow> 'dt"
  dt_timestamp :: "'dt \<Rightarrow> real"
  dt_fromtimestamp :: "int \<Rightarrow> error + 'dt"
  dt_strftime :: "'dt \<Rightarrow> string \<Rightarrow> string"

text \<open>Python's \<^verbatim>\<open>int(x)\<close> on a float truncates towards zero.\<close>

definition py_int :: "real \<Rightarrow> int" where
  "py_int x = (if 0 \<le> x then \<lfloor>x\<rfloor> else \<lceil>x\<rceil>)"

section \<open>The growth chart (lines 58--82)\<close>

definition one_year_ago_epoch :: "'dt datetime_lib \<Rightarrow> int" where
  "one_year_ago_epoch L =
     (let one_year_ago = dt_minus_days L (dt_now L) 365
      in py_int (dt_timestamp L one_year_ago))"

fun growth_loop :: "'dt datetime_lib \<Rightarrow> int \<Rightarrow> counter \<Rightarrow> camera list \<Rightarrow> error + counter" where
  "growth_loop L cutoff date_counts [] = Inr date_counts"
| "growth_loop L cutoff date_counts (c # cs) =
     (let install_date_epoch = date_added c
      in if install_date_epoch > cutoff then
           (case dt_fromtimestamp L install_date_epoch of
              Inl e \<Rightarrow> Inl e
            | Inr install_date \<Rightarrow>
                (let month = dt_strftime L install_date ''%Y-%m'';
                     date_counts1 =
                       (if \<not> dict_contains date_counts month
                        then AList.update month 0 date_counts else date_counts)
                 in case dict_incr date_counts1 month of
                      Inl e \<Rightarrow> Inl e
                    | Inr date_counts2 \<Rightarrow> growth_loop L cutoff date_counts2 cs))
         else growth_loop L cutoff date_counts cs)"

text \<open>\<^verbatim>\<open>[date_counts[date] for date in dates]\<close>.\<close>

fun dict_get_all :: "(string \<times> 'v) list \<Rightarrow> string list \<Rightarrow> error + 'v list" where
  "dict_get_all d [] = Inr []"
| "dict_get_all d (k # ks) =
     (case dict_get d k of
        Inl e \<Rightarrow> Inl e
      | Inr v \<Rightarrow> (case dict_get_all d ks of Inl e \<Rightarrow> Inl e | Inr vs \<Rightarrow> Inr (v # vs)))"

definition create_camera_growth_bar_graph ::
  "'dt datetime_lib \<Rightarrow> camera list \<Rightarrow> error + chart" where
  "create_camera_growth_bar_graph L cameras =
     (case growth_loop L (one_year_ago_epoch L) [] cameras of
        Inl e \<Rightarrow> Inl e
      | Inr date_counts \<Rightarrow>
          (let dates = sort (map fst date_counts)
           in case dict_get_all date_counts dates of
                Inl e \<Rightarrow> Inl e
              | Inr counts \<Rightarrow>
                  Inr \<lparr>chart_file = ''camera_growth_bar.png'',
                       chart_labels = dates,
                       chart_values = counts\<rparr>))"

section \<open>The report builder (lines 84--159)\<close>

text \<open>
  The flowables the function appends to \<^verbatim>\<open>elements\<close>, with the arguments the source
  gives them. A table carries its cell data, its column widths when given, and its
  style commands (name, start cell, stop cell, arguments).
\<close>

datatype style_arg = SStr string | SInt int | SColor string

datatype style_cmd = StyleCmd string "int \<times> int" "int \<times> int" "style_arg list"

datatype flowable =
    Spacer int int
  | Image string int int
  | Table "string list list" "int list option" "style_cmd list"

definition title_style :: "int \<Rightarrow> int \<Rightarrow> style_cmd list" where
  "title_style font_size padding =
     [StyleCmd ''ALIGN'' (0, 0) (-1, 0) [SStr ''LEFT''],
      StyleCmd ''FONTNAME'' (0, 0) (-1, 0) [SStr ''Helvetica-Bold''],
      StyleCmd ''FONTSIZE'' (0, 0) (-1, 0) [SInt font_size],
      StyleCmd ''BOTTOMPADDING'' (0, 0) (-1, 0) [SInt padding]]"

definition device_table_style :: "style_cmd list" where
  "device_table_style =
     [StyleCmd ''BACKGROUND'' (0, 0) (-1, 0) [SColor ''#0293cd''],
      StyleCmd ''ALIGN'' (0, 0) (-1, -1) [SStr ''LEFT''],
      StyleCmd ''FONTNAME'' (0, 0) (-1, 0) [SStr ''Helvetica-Bold''],
      StyleCmd ''FONTSIZE'' (0, 0) (-1, 0) [SInt 10],
      StyleCmd ''BOTTOMPADDING'' (0, 0) (-1, 0) [SInt 8],
      StyleCmd ''TEXTCOLOR'' (0, 0) (-1, 0) [SColor ''black''],
      StyleCmd ''FONTNAME'' (0, 1) (-1, -1) [SStr ''Helvetica''],
      StyleCmd ''FONTSIZE'' (0, 1) (-1, -1) [SInt 10],
      StyleCmd ''GRID'' (0, 0) (-1, -1) [SInt 1, SColor ''black''],
      StyleCmd ''LEFTPADDING'' (0, 0) (-1, -1) [SInt 8],
      StyleCmd ''RIGHTPADDING'' (0, 0) (-1, -1) [SInt 8],
      StyleCmd ''VALIGN'' (0, 0) (-1, -1) [SStr ''TOP'']]"

text \<open>
  What reaches \<^verbatim>\<open>doc.build\<close>: the file name of the template, the text the page
  callback \<^verbatim>\<open>add_header\<close> draws, and the flowables. Rendering the pages, reading the
  image files and writing the PDF are the document library's and are not modelled.
\<close>

record document =
  doc_filename :: string
  doc_header :: string
  doc_elements :: "flowable list"

definition cover_elements :: "flowable list" where
  "cover_elements =
     [Spacer 1 12,
      Image ''verkada_logo.png'' 100 50,
      Spacer 1 12,
      Table [[''Verkada Install Site Report'']] None (title_style 14 12),
      Spacer 1 12]"

definition table_header :: "string list" where
  "table_header = [''Name'', ''Model'', ''Serial'', ''Date Added'']"

text \<open>
  The local variable \<^verbatim>\<open>count\<close> is an \<open>int option\<close>: \<open>None\<close> while no assignment has
  bound it (written \<open>cnt\<close> below). \<^verbatim>\<open>count += 1\<close> reads it first, and reading an
  unbound local raises.
\<close>

definition increment_local :: "string \<Rightarrow> int option \<Rightarrow> error + int option" where
  "increment_local var v =
     (case v of None \<Rightarrow> Inl (UnboundLocalError var) | Some n \<Rightarrow> Inr (Some (n + 1)))"

text \<open>The loop over one site's devices (lines 130--138), on the table data and \<^verbatim>\<open>count\<close>.\<close>

fun table_rows ::
  "'dt datetime_lib \<Rightarrow> string list list \<times> int option \<Rightarrow> camera list
     \<Rightarrow> error + (string list list \<times> int option)" where
  "table_rows L (data, cnt) [] = Inr (data, cnt)"
| "table_rows L (data, cnt) (c # cs) =
     (case dt_fromtimestamp L (date_added c) of
        Inl e \<Rightarrow> Inl e
      | Inr d \<Rightarrow>
          (let date_added_text = dt_strftime L d ''%Y-%m-%d'';
               data' = data @ [[name c, model c, serial c, date_added_text]]
           in case increment_local ''count'' cnt of
                Inl e \<Rightarrow> Inl e
              | Inr cnt' \<Rightarrow> table_rows L (data', cnt') cs))"

definition site_heading :: "string \<Rightarrow> flowable list" where
  "site_heading s =
     [Table [[''Site: '' @ s]] None (title_style 12 8),
      Spacer 1 12,
      Image (s @ ''_status_bar.png'') 250 125,
      Spacer 1 12]"

text \<open>The loop over the sorted sites (lines 112--157), on \<^verbatim>\<open>elements\<close> and \<^verbatim>\<open>count\<close>.\<close>

fun site_sections ::
  "'dt datetime_lib \<Rightarrow> flowable list \<times> int option \<Rightarrow> sites
     \<Rightarrow> error + (flowable list \<times> int option)" where
  "site_sections L (elements, cnt) [] = Inr (elements, cnt)"
| "site_sections L (elements, cnt) ((s, cameras) # rest) =
     (let elements1 = elements @ site_heading s
      in case table_rows L ([table_header], cnt) cameras of
           Inl e \<Rightarrow> Inl e
         | Inr (data, cnt') \<Rightarrow>
             site_sections L
               (elements1 @ [Table data (Some [150, 60, 120, 100]) device_table_style,
                             Spacer 1 24],
                cnt')
               rest)"

text \<open>
  \<^verbatim>\<open>sorted(sites.items())\<close> orders the (label, devices) pairs; the labels of a
  dictionary are distinct, so the order is the order of the labels, and Python compares
  strings lexicographically by code point. \<^verbatim>\<open>report_date\<close> (line 100) is computed and
  never used.
\<close>

definition create_pdf_report :: "'dt datetime_lib \<Rightarrow> sites \<Rightarrow> error + document" where
  "create_pdf_report L sites =
     (let sorted_sites = sort_key fst sites
      in case site_sections L (cover_elements, None) sorted_sites of
           Inl e \<Rightarrow> Inl e
         | Inr (elements, cnt) \<Rightarrow>
             Inr \<lparr>doc_filename = ''Verkada_Camera_Report.pdf'',
                  doc_header = ''Report Date: '' @ dt_strftime L (dt_now L) ''%Y-%m-%d'',
                  doc_elements = elements\<rparr>)"

section \<open>The orchestrator (lines 161--169)\<close>

text \<open>
  The five stages in the order of \<^verbatim>\<open>main\<close>; the first fault ends the run. The
  clock is read through one library value for the whole run. Of a run that faults the
  model keeps the fault only, not the chart files written before it.
\<close>

record outputs =
  out_status_charts :: "chart list"
  out_growth_chart :: chart
  out_report :: document

definition main_after_fetch :: "'dt datetime_lib \<Rightarrow> camera list \<Rightarrow> error + outputs" where
  "main_after_fetch L cameras =
     (let sites = group_cameras_by_site cameras
      in case create_camera_status_by_site_bar_graph sites of
           Inl e \<Rightarrow> Inl e
         | Inr charts \<Rightarrow>
             (case create_camera_growth_bar_graph L cameras of
                Inl e \<Rightarrow> Inl e
              | Inr growth \<Rightarrow>
                  (case create_pdf_report L sites of
                     Inl e \<Rightarrow> Inl e
                   | Inr doc \<Rightarrow>
                       Inr \<lparr>out_status_charts = charts,
                            out_growth_chart = growth,
                            out_report = doc\<rparr>)))"

definition main ::
  "'w api \<Rightarrow> string \<Rightarrow> 'w \<Rightarrow> 'dt datetime_lib \<Rightarrow> ((error + outputs) \<times> request list) option" where
  "main srv key w L =
     (case fetch_camera_data srv key w of
        None \<Rightarrow> None
      | Some (Inl e, sent) \<Rightarrow> Some (Inl e, sent)
      | Some (Inr cameras, sent) \<Rightarrow> Some (main_after_fetch L cameras, sent))"

text \<open>
  Running the file: the module-level statements come first (the credential check of
  lines 13--15), then \<^verbatim>\<open>main()\<close>. The result is the outcome and the requests issued.
\<close>

definition program ::
  "(string \<rightharpoonup> string) \<Rightarrow> 'w api \<Rightarrow> 'w \<Rightarrow> 'dt datetime_lib
     \<Rightarrow> ((error + outputs) \<times> request list) option" where
  "program env srv w L =
     (case load_api_key env of
        Inl e \<Rightarrow> Some (Inl e, [])
      | Inr key \<Rightarrow> main srv key w L)"

section \<open>A reference instance of the date and time library\<close>

text \<open>
  For concrete runs: a machine whose local time is UTC. A date-time is a count of
  microseconds since the epoch; the calendar is the proleptic Gregorian one, computed
  from the day number \<open>z\<close> (days since 1970-01-01) through the 400-year era, the
  day and year of the era, and the day of a year that starts on 1 March; the years 1
  to 9999 are representable, as in Python.
\<close>

definition days_era :: "int \<Rightarrow> int" where
  "days_era z = (z + 719468) div 146097"

definition day_of_era :: "int \<Rightarrow> int" where
  "day_of_era z = z + 719468 - days_era z * 146097"

definition year_of_era :: "int \<Rightarrow> int" where
  "year_of_era doe = (doe - doe div 1460 + doe div 36524 - doe div 146096) div 365"

definition day_of_year :: "int \<Rightarrow> int" where
  "day_of_year doe = doe - (365 * year_of_era doe + year_of_era doe div 4 - year_of_era doe div 100)"

definition month_index :: "int \<Rightarrow> int" where
  "month_index doy = (5 * doy + 2) div 153"

definition civil_day :: "int \<Rightarrow> int" where
  "civil_day z =
     day_of_year (day_of_era z) - (153 * month_index (day_of_year (day_of_era z)) + 2) div 5 + 1"

definition civil_month :: "int \<Rightarrow> int" where
  "civil_month z =
     (if month_index (day_of_year (day_of_era z)) < 10
      then month_index (day_of_year (day_of_era z)) + 3
      else month_index (day_of_year (day_of_era z)) - 9)"

definition civil_year :: "int \<Rightarrow> int" where
  "civil_year z =
     year_of_era (day_of_era z) + days_era z * 400 + (if civil_month z \<le> 2 then 1 else 0)"

definition civil_from_days :: "int \<Rightarrow> int \<times> int \<times> int" where
  "civil_from_days z = (civil_year z, civil_month z, civil_day z)"

definition digit_char :: "int \<Rightarrow> char" where
  "digit_char n = ''0123456789'' ! nat (n mod 10)"

definition pad2 :: "int \<Rightarrow> string" where
  "pad2 n = [digit_char (n div 10), digit_char n]"

definition pad4 :: "int \<Rightarrow> string" where
  "pad4 n = [digit_char (n div 1000), digit_char (n div 100), digit_char (n div 10), digit_char n]"

text \<open>The directives \<^verbatim>\<open>%Y\<close>, \<^verbatim>\<open>%m\<close> and \<^verbatim>\<open>%d\<close>; every other character is copied.\<close>

fun format_date :: "int \<times> int \<times> int \<Rightarrow> string \<Rightarrow> string" where
  "format_date ymd [] = []"
| "format_date ymd [c] = [c]"
| "format_date (y, m, d) (c # e # rest) =
     (if c = CHR ''%'' \<and> e = CHR ''Y'' then pad4 y @ format_date (y, m, d) rest
      else if c = CHR ''%'' \<and> e = CHR ''m'' then pad2 m @ format_date (y, m, d) rest
      else if c = CHR ''%'' \<and> e = CHR ''d'' then pad2 d @ format_date (y, m, d) rest
      else c # format_date (y, m, d) (e # rest))"

definition utc_fromtimestamp :: "int \<Rightarrow> error + int" where
  "utc_fromtimestamp ts =
     (if 1 \<le> civil_year (ts div 86400) \<and> civil_year (ts div 86400) \<le> 9999
      then Inr (ts * 1000000)
      else Inl (ValueError ''year is out of range''))"

definition utc_strftime :: "int \<Rightarrow> string \<Rightarrow> string" where
  "utc_strftime us fmt = format_date (civil_from_days (us div 1000000 div 86400)) fmt"

definition utc_lib :: "int \<Rightarrow> int datetime_lib" where
  "utc_lib now_us =
     \<lparr>dt_now = now_us,
      dt_minus_days = (\<lambda>t n. t - n * 86400 * 1000000),
      dt_timestamp = (\<lambda>t. real_of_int t / 1000000),
      dt_fromtimestamp = utc_fromtimestamp,
      dt_strftime = utc_strftime\<rparr>"

section \<open>Vocabulary of the statements\<close>

text \<open>
  The elements of a list in order of first occurrence (\<open>remdups\<close> keeps the last
  occurrence of each element, hence the two reversals); and the list stored under a
  key, or the empty list when the key is absent.
\<close>

definition first_seen :: "'a list \<Rightarrow> 'a list" where
  "first_seen xs = rev (remdups (rev xs))"

definition entry_or_empty :: "('k \<times> 'v list) list \<Rightarrow> 'k \<Rightarrow> 'v list" where
  "entry_or_empty al k = (case map_of al k of None \<Rightarrow> [] | Some l \<Rightarrow> l)"

text \<open>The number of devices of a list that bear a given status; the two known statuses.\<close>

definition status_count :: "string \<Rightarrow> camera list \<Rightarrow> int" where
  "status_count st cameras = int (length (filter (\<lambda>c. status c = st) cameras))"

definition known_status :: "string \<Rightarrow> bool" where
  "known_status st = (st = ''Live'' \<or> st = ''Offline'')"

text \<open>
  For the growth series: whether the library converts a timestamp; the year-month label
  of a device's installation (the empty string where the conversion fails); the count
  stored under a label, or 0; one more device under a label; and the devices installed
  strictly after a cutoff.
\<close>

definition converts :: "'dt datetime_lib \<Rightarrow> int \<Rightarrow> bool" where
  "converts L t = (case dt_fromtimestamp L t of Inl e \<Rightarrow> False | Inr d \<Rightarrow> True)"

definition install_month :: "'dt datetime_lib \<Rightarrow> camera \<Rightarrow> string" where
  "install_month L c =
     (case dt_fromtimestamp L (date_added c) of
        Inl e \<Rightarrow> []
      | Inr d \<Rightarrow> dt_strftime L d ''%Y-%m'')"

definition count_or_zero :: "counter \<Rightarrow> string \<Rightarrow> int" where
  "count_or_zero dc m = (case map_of dc m of None \<Rightarrow> 0 | Some n \<Rightarrow> n)"

definition tally :: "counter \<Rightarrow> string \<Rightarrow> counter" where
  "tally dc m = AList.update m (count_or_zero dc m + 1) dc"

definition after_cutoff :: "int \<Rightarrow> camera list \<Rightarrow> camera list" where
  "after_cutoff cutoff cameras = filter (\<lambda>c. cutoff < date_added c) cameras"

text \<open>
  For the report: the fault that the first row of a device table meets while
  \<^verbatim>\<open>count\<close> is unbound (the date conversion is evaluated first); the section of a
  site that has no devices; and the table row of a device.
\<close>

definition first_row_fault :: "'dt datetime_lib \<Rightarrow> camera \<Rightarrow> error" where
  "first_row_fault L c =
     (case dt_fromtimestamp L (date_added c) of
        Inl e \<Rightarrow> e
      | Inr d \<Rightarrow> UnboundLocalError ''count'')"

definition empty_site_section :: "string \<Rightarrow> flowable list" where
  "empty_site_section s =
     site_heading s @
     [Table [table_header] (Some [150, 60, 120, 100]) device_table_style, Spacer 1 24]"

definition device_row :: "'dt datetime_lib \<Rightarrow> camera \<Rightarrow> string list" where
  "device_row L c =
     [name c, model c, serial c,
      (case dt_fromtimestamp L (date_added c) of
         Inl e \<Rightarrow> []
       | Inr d \<Rightarrow> dt_strftime L d ''%Y-%m-%d'')]"

section \<open>Concrete inputs\<close>

text \<open>
  A mocked server that hands out a prepared sequence of pages, one per request, and
  empty pages once the sequence is used up; and a device record for the examples.
\<close>

definition paged_server :: "camera list list api" where
  "paged_server pages r =
     (case pages of [] \<Rightarrow> (Cameras [], []) | p # ps \<Rightarrow> (Cameras p, ps))"

definition device :: "string \<Rightarrow> string \<Rightarrow> string \<Rightarrow> int \<Rightarrow> camera" where
  "device n s st t =
     \<lparr>name = n, model = ''CD52'', serial = ''SN-'' @ n, site = s, status = st, date_added = t\<rparr>"

section \<open>Pagination\<close>

lemma tokens_from_0: "tokens_from p 0 = []"
  by (simp add: tokens_from_def)

lemma tokens_from_Suc: "tokens_from p (Suc n) = p # tokens_from (p + 1) n"
proof -
  have "[0..<Suc n] = 0 # map Suc [0..<n]"
    by (simp add: upt_conv_Cons map_Suc_upt del: upt_Suc)
  then show ?thesis
    by (simp add: tokens_from_def comp_def add.assoc del: upt_Suc)
qed

lemma page_tokens_of_requests:
  "map req_page_token (map (page_request key) ts) = ts"
  by (induction ts) (simp_all add: page_request_def)

lemma fetch_loop_short_page:
  assumes "srv w (page_request key page) = (Cameras p, w')" and "int (length p) < PAGE_LIMIT"
  shows "fetch_loop srv key w cameras page sent =
           Some (Inr (cameras @ p), sent @ [page_request key page])"
  using assms by (subst fetch_loop.simps) simp

lemma fetch_loop_full_page:
  assumes "srv w (page_request key page) = (Cameras q, w')" and "\<not> int (length q) < PAGE_LIMIT"
  shows "fetch_loop srv key w cameras page sent =
           fetch_loop srv key w' (cameras @ q) (page + 1) (sent @ [page_request key page])"
  using assms by (subst fetch_loop.simps) simp

text \<open>
  The loop from any state: \<open>ps\<close> are the full pages it is given, \<open>p\<close> the first
  short one.
\<close>

lemma fetch_loop_pages:
  assumes "replies srv w (map (page_request key) (tokens_from page (Suc (length ps))))
             = map Cameras (ps @ [p])"
    and "\<forall>q\<in>set ps. \<not> int (length q) < PAGE_LIMIT"
    and "int (length p) < PAGE_LIMIT"
  shows "fetch_loop srv key w cameras page sent =
           Some (Inr (cameras @ concat ps @ p),
                 sent @ map (page_request key) (tokens_from page (Suc (length ps))))"
  using assms
proof (induction ps arbitrary: w cameras page sent)
  case Nil
  then have "fst (srv w (page_request key page)) = Cameras p"
    by (simp add: tokens_from_Suc tokens_from_0)
  then have "srv w (page_request key page) = (Cameras p, snd (srv w (page_request key page)))"
    by (metis prod.collapse)
  from fetch_loop_short_page [of srv w key page p _ cameras sent, OF this Nil.prems(3)]
  show ?case
    by (simp add: tokens_from_Suc tokens_from_0)
next
  case (Cons q qs)
  let ?r = "page_request key page"
  from Cons.prems(1) have hd: "fst (srv w ?r) = Cameras q"
    and tl: "replies srv (snd (srv w ?r))
               (map (page_request key) (tokens_from (page + 1) (Suc (length qs))))
               = map Cameras (qs @ [p])"
    by (simp_all add: tokens_from_Suc)
  from hd have eq: "srv w ?r = (Cameras q, snd (srv w ?r))"
    by (metis prod.collapse)
  from Cons.prems(2) have full: "\<not> int (length q) < PAGE_LIMIT"
    and rest: "\<forall>q\<in>set qs. \<not> int (length q) < PAGE_LIMIT"
    by simp_all
  have "fetch_loop srv key w cameras page sent =
          fetch_loop srv key (snd (srv w ?r)) (cameras @ q) (page + 1) (sent @ [?r])"
    using eq full by (rule fetch_loop_full_page)
  also have "\<dots> = Some (Inr ((cameras @ q) @ concat qs @ p),
                 (sent @ [?r]) @ map (page_request key) (tokens_from (page + 1) (Suc (length qs))))"
    by (rule Cons.IH [OF tl rest Cons.prems(3)])
  finally show ?case
    by (simp add: tokens_from_Suc)
qed

text \<open>
  The loop has no other exit: against a server whose every answer is a full page it
  never returns.
\<close>

lemma fetch_loop_returns_not_all_full:
  assumes ret: "fetch_loop srv key w cameras page sent = Some y"
  shows "\<not> (\<forall>w r. \<exists>q w'. srv w r = (Cameras q, w') \<and> \<not> int (length q) < PAGE_LIMIT)"
proof (rule fetch_loop.raw_induct
    [where P = "\<lambda>srv key w cameras page sent y.
       \<not> (\<forall>w r. \<exists>q w'. srv w r = (Cameras q, w') \<and> \<not> int (length q) < PAGE_LIMIT)",
     OF _ ret])
  fix f :: "'a api \<Rightarrow> string \<Rightarrow> 'a \<Rightarrow> camera list \<Rightarrow> int \<Rightarrow> request list
     \<Rightarrow> ((error + camera list) \<times> request list) option"
  fix srv key w cameras page sent y
  assume IH: "\<And>srv key w cameras page sent y. f srv key w cameras page sent = Some y \<Longrightarrow>
      \<not> (\<forall>w r. \<exists>q w'. srv w r = (Cameras q, w') \<and> \<not> int (length q) < PAGE_LIMIT)"
  assume body: "(let req = page_request key page; sent' = sent @ [req]
      in case srv w req of
         (TransportFailure, w') \<Rightarrow> Some (Inl ConnectionError, sent')
         | (InvalidJSON, w') \<Rightarrow> Some (Inl JSONDecodeError, sent')
         | (MissingCameras, w') \<Rightarrow> Some (Inl (KeyError ''cameras''), sent')
         | (Cameras data, w') \<Rightarrow>
             let cameras' = cameras @ data
             in if int (length data) < PAGE_LIMIT
                then Some (Inr cameras', sent')
                else f srv key w' cameras' (page + 1) sent') =
     Some y"
  show "\<not> (\<forall>w r. \<exists>q w'. srv w r = (Cameras q, w') \<and> \<not> int (length q) < PAGE_LIMIT)"
  proof
    assume full: "\<forall>w r. \<exists>q w'. srv w r = (Cameras q, w') \<and> \<not> int (length q) < PAGE_LIMIT"
    then obtain q w' where q: "srv w (page_request key page) = (Cameras q, w')"
      "\<not> int (length q) < PAGE_LIMIT"
      by blast
    from body q
    have "f srv key w' (cameras @ q) (page + 1) (sent @ [page_request key page]) = Some y"
      by simp
    then have "\<not> (\<forall>w r. \<exists>q w'. srv w r = (Cameras q, w') \<and> \<not> int (length q) < PAGE_LIMIT)"
      by (rule IH)
    with full show False by blast
  qed
qed

lemma fetch_camera_data_never_returns:
  assumes "\<forall>w r. \<exists>q w'. srv w r = (Cameras q, w') \<and> 200 \<le> length q"
  shows "fetch_camera_data srv key w = None"
proof -
  from assms
  have "\<forall>w r. \<exists>q w'. srv w r = (Cameras q, w') \<and> \<not> int (length q) < PAGE_LIMIT"
    by (simp add: PAGE_LIMIT_def not_less)
  with fetch_loop_returns_not_all_full [of srv key w "[]" 1 "[]"] show ?thesis
    unfolding fetch_camera_data_def by (cases "fetch_loop srv key w [] 1 []") auto
qed

text \<open>
  Claim C1. Let the server answer the requests with page tokens \<open>1, 2, \<dots>\<close> by the
  pages \<open>ps\<close>, each of at least 200 records, and then by a page \<open>p\<close> of fewer than
  200. Then \<open>fetch_camera_data\<close> returns; it has issued exactly \<open>length ps + 1\<close>
  requests, with page tokens \<open>1, 2, \<dots>, length ps + 1\<close> in this order and none after
  the short page; and its result is the concatenation of the pages in request order.
\<close>

theorem fetch_camera_data_pages:
  assumes "replies srv w (map (page_request key) (tokens_from 1 (Suc (length ps))))
             = map Cameras (ps @ [p])"
    and "\<forall>q\<in>set ps. 200 \<le> length q"
    and "length p < 200"
  shows "fetch_camera_data srv key w =
           Some (Inr (concat (ps @ [p])),
                 map (page_request key) (tokens_from 1 (Suc (length ps))))
         \<and> map req_page_token (map (page_request key) (tokens_from 1 (Suc (length ps))))
             = map (\<lambda>i. 1 + int i) [0..<Suc (length ps)]
         \<and> length (map (page_request key) (tokens_from 1 (Suc (length ps)))) = length ps + 1"
proof -
  from assms(2) have full: "\<forall>q\<in>set ps. \<not> int (length q) < PAGE_LIMIT"
    by (simp add: PAGE_LIMIT_def not_less)
  from assms(3) have short: "int (length p) < PAGE_LIMIT"
    by (simp add: PAGE_LIMIT_def)
  from fetch_loop_pages [OF assms(1) full short, of "[]" "[]"]
  have "fetch_camera_data srv key w =
           Some (Inr (concat (ps @ [p])),
                 map (page_request key) (tokens_from 1 (Suc (length ps))))"
    by (simp add: fetch_camera_data_def)
  moreover have "map req_page_token (map (page_request key) (tokens_from 1 (Suc (length ps))))
             = map (\<lambda>i. 1 + int i) [0..<Suc (length ps)]"
    unfolding page_tokens_of_requests by (simp add: tokens_from_def)
  moreover have "length (map (page_request key) (tokens_from 1 (Suc (length ps)))) = length ps + 1"
    by (simp add: tokens_from_def)
  ultimately show ?thesis by blast
qed

text \<open>
  The case of the specification: a first page of exactly 200 records and a second of
  50 give exactly two requests, with page tokens 1 then 2, and all 250 records.
\<close>

theorem fetch_camera_data_pages_witness:
  "fetch_camera_data paged_server ''k3y''
       [replicate 200 (device ''cam'' ''Lobby'' ''Live'' 1700000000),
        replicate 50 (device ''cam'' ''Lobby'' ''Live'' 1700000000)]
     = Some (Inr (replicate 200 (device ''cam'' ''Lobby'' ''Live'' 1700000000) @
                  replicate 50 (device ''cam'' ''Lobby'' ''Live'' 1700000000)),
             [page_request ''k3y'' 1, page_request ''k3y'' 2])
   \<and> map req_page_token [page_request ''k3y'' 1, page_request ''k3y'' 2] = [1, 2]"
  using fetch_camera_data_pages
    [of paged_server
        "[replicate 200 (device ''cam'' ''Lobby'' ''Live'' 1700000000),
          replicate 50 (device ''cam'' ''Lobby'' ''Live'' 1700000000)]"
        "''k3y''"
        "[replicate 200 (device ''cam'' ''Lobby'' ''Live'' 1700000000)]"
        "replicate 50 (device ''cam'' ''Lobby'' ''Live'' 1700000000)"]
  by (simp add: paged_server_def tokens_from_Suc tokens_from_0 page_request_def)

section \<open>The credential check\<close>

text \<open>
  Claim C7. With \<^verbatim>\<open>VERKADA_API_KEY\<close> unset or empty the program ends with the
  configuration error and has issued no request. With the variable set to a non-empty
  string the check passes with that string as the key, and the program goes on to
  \<open>main\<close>.
\<close>

theorem credential_checked_before_any_request:
  "(env ''VERKADA_API_KEY'' = None \<or> env ''VERKADA_API_KEY'' = Some [] \<longrightarrow>
      load_api_key env = Inl (ValueError missing_key_message) \<and>
      program env srv w L = Some (Inl (ValueError missing_key_message), []))
   \<and> (\<forall>k. env ''VERKADA_API_KEY'' = Some k \<and> k \<noteq> [] \<longrightarrow>
         load_api_key env = Inr k \<and> program env srv w L = main srv k w L)"
  by (auto simp: load_api_key_def program_def)

theorem credential_checked_before_any_request_witness:
  "program Map.empty paged_server [[]] (utc_lib 1731542400500000)
     = Some (Inl (ValueError missing_key_message), [])
   \<and> program [''VERKADA_API_KEY'' \<mapsto> []] paged_server [[]] (utc_lib 1731542400500000)
     = Some (Inl (ValueError missing_key_message), [])
   \<and> load_api_key [''VERKADA_API_KEY'' \<mapsto> ''k3y''] = Inr ''k3y''
   \<and> program [''VERKADA_API_KEY'' \<mapsto> ''k3y''] paged_server [[]] (utc_lib 1731542400500000)
     = main paged_server ''k3y'' [[]] (utc_lib 1731542400500000)"
  using credential_checked_before_any_request
      [of Map.empty paged_server "[[]]" "utc_lib 1731542400500000"]
    credential_checked_before_any_request
      [of "[''VERKADA_API_KEY'' \<mapsto> []]" paged_server "[[]]" "utc_lib 1731542400500000"]
    credential_checked_before_any_request
      [of "[''VERKADA_API_KEY'' \<mapsto> ''k3y'']" paged_server "[[]]" "utc_lib 1731542400500000"]
  by simp

section \<open>Grouping by site\<close>

lemma remdups_drop_seen: "k \<in> set ys \<Longrightarrow> remdups (xs @ k # ys) = remdups (xs @ ys)"
  by (induction xs) auto

lemma first_seen_distinct: "distinct xs \<Longrightarrow> first_seen xs = xs"
  by (simp add: first_seen_def distinct_remdups_id)

lemma first_seen_snoc_seen: "k \<in> set xs \<Longrightarrow> first_seen (xs @ k # ys) = first_seen (xs @ ys)"
  by (simp add: first_seen_def remdups_drop_seen)

lemma keys_map_entry: "map fst (AList.map_entry k f al) = map fst al"
  by (induction al) auto

lemma group_loop_keys:
  "distinct (map fst acc) \<Longrightarrow>
     map fst (group_loop acc cs) = first_seen (map fst acc @ map site cs)"
proof (induction cs arbitrary: acc)
  case Nil
  then show ?case by (simp add: first_seen_distinct)
next
  case (Cons c cs)
  show ?case
  proof (cases "dict_contains acc (site c)")
    case True
    then have "site c \<in> set (map fst acc)" by (simp add: dict_contains_def)
    with Cons True show ?thesis
      by (simp add: Let_def keys_map_entry first_seen_snoc_seen)
  next
    case False
    then have "site c \<notin> fst ` set acc" by (simp add: dict_contains_def)
    with Cons False show ?thesis
      by (simp add: Let_def keys_map_entry AList.update_keys distinct_update)
  qed
qed

lemma map_of_absent: "k \<notin> fst ` set al \<Longrightarrow> map_of al k = None"
  by (simp add: map_of_eq_None_iff)

lemma group_loop_lookup:
  "map_of (group_loop acc cs) s =
     (if s \<in> fst ` set acc \<union> site ` set cs
      then Some (entry_or_empty acc s @ filter (\<lambda>c. site c = s) cs) else None)"
proof (induction cs arbitrary: acc)
  case Nil
  show ?case
    by (cases "map_of acc s") (auto simp: entry_or_empty_def map_of_eq_None_iff dest: map_of_SomeD intro: rev_image_eqI)
next
  case (Cons c cs)
  let ?acc1 = "if \<not> dict_contains acc (site c) then AList.update (site c) [] acc else acc"
  let ?acc2 = "AList.map_entry (site c) (\<lambda>l. l @ [c]) ?acc1"
  have keys: "fst ` set ?acc2 = insert (site c) (fst ` set acc)"
  proof -
    have "set (map fst ?acc2) = set (map fst ?acc1)"
      by (simp only: keys_map_entry)
    also have "\<dots> = insert (site c) (fst ` set acc)"
      by (auto simp: dict_contains_def AList.dom_update)
    finally show ?thesis by simp
  qed
  have entry: "entry_or_empty ?acc2 s = entry_or_empty acc s @ (if site c = s then [c] else [])"
  proof (cases "site c \<in> fst ` set acc")
    case True
    then obtain l where "map_of acc (site c) = Some l"
      by (metis map_of_eq_None_iff not_Some_eq)
    with True show ?thesis
      by (auto simp: entry_or_empty_def AList.map_of_map_entry dict_contains_def)
  next
    case False
    then have "map_of acc (site c) = None"
      by (rule map_of_absent)
    with False show ?thesis
      by (auto simp: entry_or_empty_def AList.map_of_map_entry AList.update_conv' dict_contains_def)
  qed
  have "map_of (group_loop acc (c # cs)) s = map_of (group_loop ?acc2 cs) s"
    by (simp add: Let_def)
  also have "\<dots> = (if s \<in> fst ` set ?acc2 \<union> site ` set cs
      then Some (entry_or_empty ?acc2 s @ filter (\<lambda>c. site c = s) cs) else None)"
    by (rule Cons.IH)
  also have "\<dots> = (if s \<in> fst ` set acc \<union> site ` set (c # cs)
      then Some (entry_or_empty acc s @ filter (\<lambda>c. site c = s) (c # cs)) else None)"
    unfolding keys entry by auto
  finally show ?case .
qed

lemma sum_lengths_update_new:
  "k \<notin> fst ` set al \<Longrightarrow> (\<Sum>p\<leftarrow>AList.update k [] al. length (snd p)) = (\<Sum>p\<leftarrow>al. length (snd p))"
  by (induction al) auto

lemma sum_lengths_map_entry:
  "k \<in> fst ` set al \<Longrightarrow>
     (\<Sum>p\<leftarrow>AList.map_entry k (\<lambda>l. l @ [c]) al. length (snd p)) = Suc (\<Sum>p\<leftarrow>al. length (snd p))"
  by (induction al) auto

lemma group_loop_sum_lengths:
  "(\<Sum>p\<leftarrow>group_loop acc cs. length (snd p)) = (\<Sum>p\<leftarrow>acc. length (snd p)) + length cs"
proof (induction cs arbitrary: acc)
  case Nil
  show ?case by simp
next
  case (Cons c cs)
  show ?case
  proof (cases "dict_contains acc (site c)")
    case True
    then have "site c \<in> fst ` set acc" by (simp add: dict_contains_def)
    with Cons True show ?thesis
      by (simp add: Let_def sum_lengths_map_entry)
  next
    case False
    then have new: "site c \<notin> fst ` set acc" by (simp add: dict_contains_def)
    have "site c \<in> fst ` set (AList.update (site c) [] acc)"
      by (simp add: AList.dom_update)
    with Cons False new show ?thesis
      by (simp add: Let_def sum_lengths_map_entry sum_lengths_update_new)
  qed
qed

lemma alist_from_lookup:
  "distinct (map fst al) \<Longrightarrow> al = map (\<lambda>k. (k, the (map_of al k))) (map fst al)"
proof (induction al)
  case Nil
  show ?case by simp
next
  case (Cons p al)
  then have IH: "al = map (\<lambda>k. (k, the (map_of al k))) (map fst al)"
    and new: "fst p \<notin> fst ` set al"
    by simp_all
  have "map_of (p # al) k = map_of al k" if "k \<in> set (map fst al)" for k
  proof -
    from that new have "k \<noteq> fst p" by (metis list.set_map)
    then show ?thesis by (cases p) simp
  qed
  then have "map (\<lambda>k. (k, the (map_of (p # al) k))) (map fst al)
          = map (\<lambda>k. (k, the (map_of al k))) (map fst al)"
    by (intro map_cong) simp_all
  with IH show ?case by (cases p) simp
qed


text \<open>
  Claim C4. The result of \<open>group_cameras_by_site\<close> is, for each site label in
  order of first occurrence, the devices bearing that label in their input order. The
  labels are distinct; a device of the input is in a group exactly when the group is
  the one keyed by its site label, and it is in some group; the group sizes add up to
  the number of devices.
\<close>

theorem group_cameras_by_site_partition:
  "group_cameras_by_site cameras =
     map (\<lambda>s. (s, filter (\<lambda>c. site c = s) cameras)) (first_seen (map site cameras))
   \<and> distinct (map fst (group_cameras_by_site cameras))
   \<and> (\<forall>c\<in>set cameras. \<forall>p\<in>set (group_cameras_by_site cameras).
         (c \<in> set (snd p)) = (fst p = site c))
   \<and> (\<forall>c\<in>set cameras. \<exists>p\<in>set (group_cameras_by_site cameras). c \<in> set (snd p))
   \<and> (\<Sum>p\<leftarrow>group_cameras_by_site cameras. length (snd p)) = length cameras"
proof -
  let ?g = "group_cameras_by_site cameras"
  have keys: "map fst ?g = first_seen (map site cameras)"
    using group_loop_keys [of "[]" cameras] by (simp add: group_cameras_by_site_def)
  have dist: "distinct (map fst ?g)"
    unfolding keys by (simp add: first_seen_def)
  have lookup: "map_of ?g s =
      (if s \<in> site ` set cameras then Some (filter (\<lambda>c. site c = s) cameras) else None)" for s
    using group_loop_lookup [of "[]" cameras s]
    by (simp add: group_cameras_by_site_def entry_or_empty_def)
  have keyset: "set (first_seen (map site cameras)) = site ` set cameras"
    by (simp add: first_seen_def)
  have "?g = map (\<lambda>k. (k, the (map_of ?g k))) (map fst ?g)"
    using dist by (rule alist_from_lookup)
  also have "\<dots> = map (\<lambda>s. (s, filter (\<lambda>c. site c = s) cameras)) (first_seen (map site cameras))"
    unfolding keys by (rule map_cong) (simp_all add: lookup keyset)
  finally have closed: "?g = map (\<lambda>s. (s, filter (\<lambda>c. site c = s) cameras)) (first_seen (map site cameras))" .
  have one: "\<forall>c\<in>set cameras. \<forall>p\<in>set ?g. (c \<in> set (snd p)) = (fst p = site c)"
    by (subst closed) auto
  have some: "\<forall>c\<in>set cameras. \<exists>p\<in>set ?g. c \<in> set (snd p)"
  proof
    fix c assume c: "c \<in> set cameras"
    then have "site c \<in> set (first_seen (map site cameras))"
      by (simp add: keyset)
    then have "(site c, filter (\<lambda>c'. site c' = site c) cameras) \<in> set ?g"
      by (subst closed) auto
    with c show "\<exists>p\<in>set ?g. c \<in> set (snd p)"
      by force
  qed
  have total: "(\<Sum>p\<leftarrow>?g. length (snd p)) = length cameras"
    using group_loop_sum_lengths [of "[]" cameras] by (simp add: group_cameras_by_site_def)
  from closed dist one some total show ?thesis by blast
qed

theorem group_cameras_by_site_partition_witness:
  "group_cameras_by_site
      [device ''a'' ''West'' ''Live'' 1700000000,
       device ''b'' ''Arcade'' ''Live'' 1700000001,
       device ''c'' ''West'' ''Offline'' 1700000002]
     = [(''West'', [device ''a'' ''West'' ''Live'' 1700000000,
                   device ''c'' ''West'' ''Offline'' 1700000002]),
        (''Arcade'', [device ''b'' ''Arcade'' ''Live'' 1700000001])]
   \<and> (\<Sum>p\<leftarrow>group_cameras_by_site
            [device ''a'' ''West'' ''Live'' 1700000000,
             device ''b'' ''Arcade'' ''Live'' 1700000001,
             device ''c'' ''West'' ''Offline'' 1700000002]. length (snd p)) = 3"
  using group_cameras_by_site_partition
    [of "[device ''a'' ''West'' ''Live'' 1700000000,
          device ''b'' ''Arcade'' ''Live'' 1700000001,
          device ''c'' ''West'' ''Offline'' 1700000002]"]
  by (simp add: first_seen_def device_def)

section \<open>Status tallies\<close>

lemma dict_incr_live: "dict_incr [(''Live'', a), (''Offline'', b)] ''Live'' = Inr [(''Live'', a + 1), (''Offline'', b)]"
  by (simp add: dict_incr_def dict_get_def)

lemma dict_incr_offline: "dict_incr [(''Live'', a), (''Offline'', b)] ''Offline'' = Inr [(''Live'', a), (''Offline'', b + 1)]"
  by (simp add: dict_incr_def dict_get_def)

lemma dict_incr_unknown:
  "\<not> known_status st \<Longrightarrow> dict_incr [(''Live'', a), (''Offline'', b)] st = Inl (KeyError st)"
  by (simp add: dict_incr_def dict_get_def known_status_def)

lemma count_statuses_known:
  "\<forall>c\<in>set cs. known_status (status c) \<Longrightarrow>
     count_statuses [(''Live'', a), (''Offline'', b)] cs =
       Inr [(''Live'', a + status_count ''Live'' cs), (''Offline'', b + status_count ''Offline'' cs)]"
proof (induction cs arbitrary: a b)
  case Nil
  show ?case by (simp add: status_count_def)
next
  case (Cons c cs)
  then have "status c = ''Live'' \<or> status c = ''Offline''"
    by (simp add: known_status_def)
  then show ?case
  proof
    assume "status c = ''Live''"
    with Cons show ?thesis
      by (simp add: dict_incr_live status_count_def)
  next
    assume "status c = ''Offline''"
    with Cons show ?thesis
      by (simp add: dict_incr_offline status_count_def)
  qed
qed

lemma count_statuses_unknown:
  "find (\<lambda>c. \<not> known_status (status c)) cs = Some bad \<Longrightarrow>
     count_statuses [(''Live'', a), (''Offline'', b)] cs = Inl (KeyError (status bad))"
proof (induction cs arbitrary: a b)
  case Nil
  then show ?case by simp
next
  case (Cons c cs)
  show ?case
  proof (cases "known_status (status c)")
    case False
    with Cons.prems have "bad = c" by simp
    with False show ?thesis by (simp add: dict_incr_unknown)
  next
    case True
    with Cons.prems have rest: "find (\<lambda>c. \<not> known_status (status c)) cs = Some bad" by simp
    from True have "status c = ''Live'' \<or> status c = ''Offline''"
      by (simp add: known_status_def)
    then show ?thesis
    proof
      assume "status c = ''Live''"
      with Cons.IH [OF rest] show ?thesis by (simp add: dict_incr_live)
    next
      assume "status c = ''Offline''"
      with Cons.IH [OF rest] show ?thesis by (simp add: dict_incr_offline)
    qed
  qed
qed

lemma status_counts_total:
  "\<forall>c\<in>set cs. known_status (status c) \<Longrightarrow>
     status_count ''Live'' cs + status_count ''Offline'' cs = int (length cs)"
  by (induction cs) (auto simp: status_count_def known_status_def)

lemma site_status_chart_known:
  assumes "\<forall>c\<in>set cameras. known_status (status c)"
  shows "site_status_chart s cameras =
     Inr \<lparr>chart_file = s @ ''_status_bar.png'', chart_labels = [''Live'', ''Offline''],
          chart_values = [status_count ''Live'' cameras, status_count ''Offline'' cameras]\<rparr>"
  using count_statuses_known [OF assms, of 0 0]
  by (simp add: site_status_chart_def initial_status_counts_def)

lemma site_status_chart_unknown:
  assumes "\<not> (\<forall>c\<in>set cameras. known_status (status c))"
  shows "\<exists>bad\<in>set cameras. \<not> known_status (status bad) \<and>
           site_status_chart s cameras = Inl (KeyError (status bad))"
proof -
  from assms obtain bad where f: "find (\<lambda>c. \<not> known_status (status c)) cameras = Some bad"
    by (cases "find (\<lambda>c. \<not> known_status (status c)) cameras") (auto simp: find_None_iff)
  then have "bad \<in> set cameras" and "\<not> known_status (status bad)"
    by (auto simp: find_Some_iff)
  moreover from count_statuses_unknown [OF f, of 0 0]
  have "site_status_chart s cameras = Inl (KeyError (status bad))"
    by (simp add: site_status_chart_def initial_status_counts_def)
  ultimately show ?thesis by blast
qed

lemma status_charts_known:
  "\<forall>p\<in>set sites. \<forall>c\<in>set (snd p). known_status (status c) \<Longrightarrow>
     create_camera_status_by_site_bar_graph sites =
       Inr (map (\<lambda>p. \<lparr>chart_file = fst p @ ''_status_bar.png'',
                       chart_labels = [''Live'', ''Offline''],
                       chart_values = [status_count ''Live'' (snd p),
                                       status_count ''Offline'' (snd p)]\<rparr>) sites)"
proof (induction sites)
  case Nil
  show ?case by simp
next
  case (Cons p sites)
  obtain s cs where p: "p = (s, cs)" by (cases p)
  from Cons.prems p have "\<forall>c\<in>set cs. known_status (status c)" by simp
  from site_status_chart_known [OF this, of s] Cons p show ?case by simp
qed

lemma status_charts_unknown:
  "\<not> (\<forall>p\<in>set sites. \<forall>c\<in>set (snd p). known_status (status c)) \<Longrightarrow>
     \<exists>p\<in>set sites. \<exists>bad\<in>set (snd p). \<not> known_status (status bad) \<and>
       create_camera_status_by_site_bar_graph sites = Inl (KeyError (status bad))"
proof (induction sites)
  case Nil
  then show ?case by simp
next
  case (Cons p sites)
  obtain s cs where p: "p = (s, cs)" by (cases p)
  show ?case
  proof (cases "\<forall>c\<in>set cs. known_status (status c)")
    case True
    with Cons.prems p have "\<not> (\<forall>p\<in>set sites. \<forall>c\<in>set (snd p). known_status (status c))"
      by simp
    from Cons.IH [OF this] obtain q bad where "q \<in> set sites" "bad \<in> set (snd q)"
      "\<not> known_status (status bad)"
      "create_camera_status_by_site_bar_graph sites = Inl (KeyError (status bad))"
      by blast
    with site_status_chart_known [OF True, of s] p show ?thesis
      by (intro bexI [of _ q] bexI [of _ bad]) simp_all
  next
    case False
    from site_status_chart_unknown [OF this, of s] obtain bad where "bad \<in> set cs"
      "\<not> known_status (status bad)" "site_status_chart s cs = Inl (KeyError (status bad))"
      by blast
    with p show ?thesis
      by (intro bexI [of _ p] bexI [of _ bad]) simp_all
  qed
qed


text \<open>
  Claim C5. For one site: when every device has status Live or Offline, the tally
  succeeds, the chart's two values are the numbers of Live and of Offline devices, and
  they add up to the number of devices; when some device has another status, the
  tally raises the missing-key error for the status of such a device, so that it
  succeeds if and only if all statuses are known. The same holds for the whole
  function over all sites.
\<close>

theorem status_tally:
  "((\<forall>c\<in>set cameras. known_status (status c)) \<longrightarrow>
      site_status_chart s cameras =
        Inr \<lparr>chart_file = s @ ''_status_bar.png'', chart_labels = [''Live'', ''Offline''],
             chart_values = [status_count ''Live'' cameras, status_count ''Offline'' cameras]\<rparr>
      \<and> status_count ''Live'' cameras + status_count ''Offline'' cameras = int (length cameras))
   \<and> (\<not> (\<forall>c\<in>set cameras. known_status (status c)) \<longrightarrow>
        (\<exists>bad\<in>set cameras. \<not> known_status (status bad) \<and>
           site_status_chart s cameras = Inl (KeyError (status bad))))
   \<and> ((\<forall>p\<in>set sites. \<forall>c\<in>set (snd p). known_status (status c)) \<longrightarrow>
        create_camera_status_by_site_bar_graph sites =
          Inr (map (\<lambda>p. \<lparr>chart_file = fst p @ ''_status_bar.png'',
                          chart_labels = [''Live'', ''Offline''],
                          chart_values = [status_count ''Live'' (snd p),
                                          status_count ''Offline'' (snd p)]\<rparr>) sites))
   \<and> (\<not> (\<forall>p\<in>set sites. \<forall>c\<in>set (snd p). known_status (status c)) \<longrightarrow>
        (\<exists>p\<in>set sites. \<exists>bad\<in>set (snd p). \<not> known_status (status bad) \<and>
           create_camera_status_by_site_bar_graph sites = Inl (KeyError (status bad))))"
  using site_status_chart_known [of cameras s] status_counts_total [of cameras]
    site_status_chart_unknown [of cameras s] status_charts_known [of sites]
    status_charts_unknown [of sites]
  by blast

theorem status_tally_witness:
  "site_status_chart ''West''
      [device ''a'' ''West'' ''Live'' 1700000000,
       device ''b'' ''West'' ''Offline'' 1700000001,
       device ''c'' ''West'' ''Live'' 1700000002]
     = Inr \<lparr>chart_file = ''West_status_bar.png'', chart_labels = [''Live'', ''Offline''],
            chart_values = [2, 1]\<rparr>
   \<and> site_status_chart ''West''
      [device ''a'' ''West'' ''Live'' 1700000000,
       device ''b'' ''West'' ''Unknown'' 1700000001]
     = Inl (KeyError ''Unknown'')
   \<and> create_camera_status_by_site_bar_graph
        [(''West'', [device ''a'' ''West'' ''Live'' 1700000000]),
         (''Arcade'', [device ''b'' ''Arcade'' ''Offline'' 1700000001])]
     = Inr [\<lparr>chart_file = ''West_status_bar.png'', chart_labels = [''Live'', ''Offline''],
             chart_values = [1, 0]\<rparr>,
            \<lparr>chart_file = ''Arcade_status_bar.png'', chart_labels = [''Live'', ''Offline''],
             chart_values = [0, 1]\<rparr>]
   \<and> create_camera_status_by_site_bar_graph
        [(''West'', [device ''a'' ''West'' ''Live'' 1700000000]),
         (''Arcade'', [device ''b'' ''Arcade'' ''Rebooting'' 1700000001])]
     = Inl (KeyError ''Rebooting'')"
  using status_tally
    [of "[device ''a'' ''West'' ''Live'' 1700000000,
          device ''b'' ''West'' ''Offline'' 1700000001,
          device ''c'' ''West'' ''Live'' 1700000002]"
        "''West''"
        "[(''West'', [device ''a'' ''West'' ''Live'' 1700000000]),
          (''Arcade'', [device ''b'' ''Arcade'' ''Offline'' 1700000001])]"]
    status_tally
    [of "[device ''a'' ''West'' ''Live'' 1700000000,
          device ''b'' ''West'' ''Unknown'' 1700000001]"
        "''West''"
        "[(''West'', [device ''a'' ''West'' ''Live'' 1700000000]),
          (''Arcade'', [device ''b'' ''Arcade'' ''Rebooting'' 1700000001])]"]
  by (simp add: known_status_def status_count_def device_def)

section \<open>The growth series\<close>

lemma update_new_twice:
  "AList.update k v (AList.update k u al) = AList.update k v al"
  by (induction al) auto

lemma month_step:
  "(case dict_incr (if \<not> dict_contains dc m then AList.update m 0 dc else dc) m of
      Inl e \<Rightarrow> Inl e | Inr dc2 \<Rightarrow> f dc2) = f (tally dc m)"
proof (cases "m \<in> fst ` set dc")
  case True
  then obtain n where "map_of dc m = Some n"
    by (metis map_of_eq_None_iff not_Some_eq)
  with True show ?thesis
    by (simp add: dict_incr_def dict_get_def dict_contains_def tally_def count_or_zero_def)
next
  case False
  then have "map_of dc m = None" by (rule map_of_absent)
  with False show ?thesis
    by (simp add: dict_incr_def dict_get_def dict_contains_def tally_def count_or_zero_def
        AList.update_conv' update_new_twice)
qed

lemma growth_loop_fold:
  "\<forall>c\<in>set (after_cutoff cutoff cs). converts L (date_added c) \<Longrightarrow>
     growth_loop L cutoff dc cs =
       Inr (foldl tally dc (map (install_month L) (after_cutoff cutoff cs)))"
proof (induction cs arbitrary: dc)
  case Nil
  show ?case by (simp add: after_cutoff_def)
next
  case (Cons c cs)
  show ?case
  proof (cases "cutoff < date_added c")
    case False
    with Cons show ?thesis by (simp add: after_cutoff_def)
  next
    case True
    with Cons.prems obtain d where d: "dt_fromtimestamp L (date_added c) = Inr d"
      by (auto simp: after_cutoff_def converts_def split: sum.splits)
    from Cons.prems have rest: "\<forall>c\<in>set (after_cutoff cutoff cs). converts L (date_added c)"
      by (simp add: after_cutoff_def)
    have m: "install_month L c = dt_strftime L d ''%Y-%m''"
      by (simp add: install_month_def d)
    have "growth_loop L cutoff dc (c # cs) = growth_loop L cutoff (tally dc (install_month L c)) cs"
      using True d by (simp add: Let_def month_step m)
    also have "\<dots> = Inr (foldl tally (tally dc (install_month L c))
                          (map (install_month L) (after_cutoff cutoff cs)))"
      by (rule Cons.IH [OF rest])
    finally show ?thesis using True by (simp add: after_cutoff_def)
  qed
qed

lemma growth_loop_fails:
  "\<not> (\<forall>c\<in>set (after_cutoff cutoff cs). converts L (date_added c)) \<Longrightarrow>
     \<exists>e. growth_loop L cutoff dc cs = Inl e"
proof (induction cs arbitrary: dc)
  case Nil
  then show ?case by (simp add: after_cutoff_def)
next
  case (Cons c cs)
  show ?case
  proof (cases "cutoff < date_added c")
    case False
    with Cons show ?thesis by (simp add: after_cutoff_def)
  next
    case True
    show ?thesis
    proof (cases "dt_fromtimestamp L (date_added c)")
      case (Inl e)
      with True show ?thesis by simp
    next
      case (Inr d)
      with Cons.prems True
      have "\<not> (\<forall>c\<in>set (after_cutoff cutoff cs). converts L (date_added c))"
        by (simp add: after_cutoff_def converts_def)
      from Cons.IH [OF this] True Inr show ?thesis
        by (simp add: Let_def month_step)
    qed
  qed
qed

lemma growth_loop_skips:
  "growth_loop L cutoff dc cs = growth_loop L cutoff dc (after_cutoff cutoff cs)"
proof (induction cs arbitrary: dc)
  case Nil
  show ?case by (simp add: after_cutoff_def)
next
  case (Cons c cs)
  show ?case
  proof (cases "cutoff < date_added c")
    case False
    with Cons show ?thesis by (simp add: after_cutoff_def)
  next
    case True
    with Cons show ?thesis
      by (simp add: after_cutoff_def Let_def month_step split: sum.splits)
  qed
qed

lemma tally_keys:
  "map fst (tally dc m) = (if m \<in> set (map fst dc) then map fst dc else map fst dc @ [m])"
  by (simp add: tally_def AList.update_keys)

lemma tally_lookup:
  "map_of (tally dc m) k = (if k = m then Some (count_or_zero dc m + 1) else map_of dc k)"
  by (simp add: tally_def AList.update_conv')

lemma count_or_zero_tally:
  "count_or_zero (tally dc m) k = count_or_zero dc k + (if k = m then 1 else 0)"
  by (simp add: count_or_zero_def tally_lookup)

lemma tally_keyset: "fst ` set (tally dc m) = insert m (fst ` set dc)"
  by (simp add: tally_def AList.dom_update)

lemma foldl_tally_keyset:
  "fst ` set (foldl tally dc ms) = fst ` set dc \<union> set ms"
  by (induction ms arbitrary: dc) (simp_all add: tally_keyset)

lemma foldl_tally_distinct:
  "distinct (map fst dc) \<Longrightarrow> distinct (map fst (foldl tally dc ms))"
  by (induction ms arbitrary: dc) (auto simp: tally_keys)

lemma foldl_tally_count:
  "count_or_zero (foldl tally dc ms) k = count_or_zero dc k + int (length (filter (\<lambda>m. m = k) ms))"
  by (induction ms arbitrary: dc) (auto simp: count_or_zero_tally)

lemma dict_get_all_keys:
  "set ks \<subseteq> fst ` set d \<Longrightarrow> dict_get_all d ks = Inr (map (count_or_zero d) ks)"
proof (induction ks)
  case Nil
  show ?case by simp
next
  case (Cons k ks)
  then have "k \<in> fst ` set d" by simp
  then obtain v where "map_of d k = Some v"
    by (metis map_of_eq_None_iff not_Some_eq)
  with Cons show ?case by (simp add: dict_get_def count_or_zero_def)
qed


lemma sort_distinct_set:
  fixes xs ys :: "'a::linorder list"
  assumes "distinct xs" and "set xs = set ys"
  shows "sort xs = sort (remdups ys)"
proof -
  have "sort xs = sort (remdups xs)"
    using assms(1) by (simp add: distinct_remdups_id)
  also have "\<dots> = sorted_list_of_set (set xs)"
    by (simp add: sorted_list_of_set_sort_remdups)
  also have "\<dots> = sort (remdups ys)"
    by (simp add: assms(2) sorted_list_of_set_sort_remdups)
  finally show ?thesis .
qed

lemma sum_indicator_absent:
  "m \<notin> set ks \<Longrightarrow> (\<Sum>k\<leftarrow>ks. if m = k then (1::int) else 0) = 0"
  by (induction ks) auto

lemma sum_indicator_distinct:
  "distinct ks \<Longrightarrow> m \<in> set ks \<Longrightarrow> (\<Sum>k\<leftarrow>ks. if m = k then (1::int) else 0) = 1"
  by (induction ks) (auto simp: sum_indicator_absent)

lemma count_or_zero_empty: "count_or_zero [] k = 0"
  by (simp add: count_or_zero_def)

lemma sum_counts_distinct:
  "distinct ks \<Longrightarrow> set ms \<subseteq> set ks \<Longrightarrow>
     (\<Sum>k\<leftarrow>ks. int (length (filter (\<lambda>m. m = k) ms))) = int (length ms)"
proof (induction ms)
  case Nil
  show ?case by simp
next
  case (Cons m ms)
  have "(\<Sum>k\<leftarrow>ks. int (length (filter (\<lambda>m. m = k) (m # ms))))
          = (\<Sum>k\<leftarrow>ks. int (length (filter (\<lambda>m. m = k) ms)) + (if m = k then 1 else 0))"
    by (intro arg_cong [where f = sum_list] map_cong) auto
  also have "\<dots> = (\<Sum>k\<leftarrow>ks. int (length (filter (\<lambda>m. m = k) ms)))
                    + (\<Sum>k\<leftarrow>ks. if m = k then 1 else 0)"
    by (simp add: sum_list_addf)
  also have "\<dots> = int (length ms) + 1"
    using Cons by (simp add: sum_indicator_distinct)
  finally show ?case by simp
qed

lemma growth_chart_closed_form:
  assumes conv: "\<forall>c\<in>set (after_cutoff (one_year_ago_epoch L) cameras). converts L (date_added c)"
  shows "create_camera_growth_bar_graph L cameras =
     Inr \<lparr>chart_file = ''camera_growth_bar.png'',
          chart_labels =
            sort (remdups (map (install_month L) (after_cutoff (one_year_ago_epoch L) cameras))),
          chart_values =
            map (\<lambda>m. int (length (filter (\<lambda>c. install_month L c = m)
                        (after_cutoff (one_year_ago_epoch L) cameras))))
              (sort (remdups (map (install_month L)
                        (after_cutoff (one_year_ago_epoch L) cameras))))\<rparr>"
proof -
  let ?ms = "map (install_month L) (after_cutoff (one_year_ago_epoch L) cameras)"
  let ?dc = "foldl tally [] ?ms"
  have loop: "growth_loop L (one_year_ago_epoch L) [] cameras = Inr ?dc"
    by (rule growth_loop_fold [OF conv])
  have keyset: "fst ` set ?dc = set ?ms"
    by (simp add: foldl_tally_keyset)
  have dist: "distinct (map fst ?dc)"
    by (rule foldl_tally_distinct) simp
  have dates: "sort (map fst ?dc) = sort (remdups ?ms)"
    using dist by (rule sort_distinct_set) (simp add: keyset)
  have "set (sort (remdups ?ms)) \<subseteq> fst ` set ?dc"
    by (simp add: keyset)
  then have "dict_get_all ?dc (sort (remdups ?ms)) = Inr (map (count_or_zero ?dc) (sort (remdups ?ms)))"
    by (rule dict_get_all_keys)
  moreover have "count_or_zero ?dc = (\<lambda>m. int (length (filter (\<lambda>c. install_month L c = m)
                        (after_cutoff (one_year_ago_epoch L) cameras))))"
    by (rule ext) (simp add: foldl_tally_count count_or_zero_empty comp_def)
  ultimately have counts: "dict_get_all ?dc (sort (remdups ?ms))
      = Inr (map (\<lambda>m. int (length (filter (\<lambda>c. install_month L c = m)
                        (after_cutoff (one_year_ago_epoch L) cameras)))) (sort (remdups ?ms)))"
    by simp
  show ?thesis
    unfolding create_camera_growth_bar_graph_def loop
    by (simp add: Let_def dates counts del: map_map)
qed


lemma growth_chart_skips:
  "create_camera_growth_bar_graph L cameras =
     create_camera_growth_bar_graph L (after_cutoff (one_year_ago_epoch L) cameras)"
  unfolding create_camera_growth_bar_graph_def
  by (subst growth_loop_skips) simp

lemma growth_chart_fails:
  assumes "\<not> (\<forall>c\<in>set (after_cutoff (one_year_ago_epoch L) cameras). converts L (date_added c))"
  shows "\<exists>e. create_camera_growth_bar_graph L cameras = Inl e"
  using growth_loop_fails [OF assms, of "[]"]
  by (auto simp: create_camera_growth_bar_graph_def)

lemma after_cutoff_drop:
  "date_added c \<le> cutoff \<Longrightarrow> after_cutoff cutoff (xs @ c # ys) = after_cutoff cutoff (xs @ ys)"
  by (simp add: after_cutoff_def)

text \<open>The reference library on the instants used in the examples.\<close>

lemmas calendar_defs = days_era_def day_of_era_def year_of_era_def day_of_year_def
  month_index_def civil_day_def civil_month_def civil_year_def civil_from_days_def

lemma utc_cutoff_example: "one_year_ago_epoch (utc_lib 1731542400500000) = 1700006400"
  by (simp add: one_year_ago_epoch_def utc_lib_def py_int_def)

lemma utc_fromtimestamp_examples:
  "utc_fromtimestamp 1700006401 = Inr 1700006401000000"
  "utc_fromtimestamp 1710000000 = Inr 1710000000000000"
  "utc_fromtimestamp 1710000100 = Inr 1710000100000000"
  "utc_fromtimestamp 1000000000000 = Inl (ValueError ''year is out of range'')"
  by (simp_all add: utc_fromtimestamp_def calendar_defs)

lemma utc_strftime_examples:
  "utc_strftime 1700006401000000 ''%Y-%m'' = ''2023-11''"
  "utc_strftime 1710000000000000 ''%Y-%m'' = ''2024-03''"
  "utc_strftime 1710000100000000 ''%Y-%m'' = ''2024-03''"
  "utc_strftime 1700006401000000 ''%Y-%m-%d'' = ''2023-11-15''"
  "utc_strftime 1731542400500000 ''%Y-%m-%d'' = ''2024-11-14''"
  by (simp_all add: utc_strftime_def calendar_defs pad2_def pad4_def digit_char_def)

lemma utc_lib_fields:
  "dt_fromtimestamp (utc_lib n) = utc_fromtimestamp"
  "dt_strftime (utc_lib n) = utc_strftime"
  "dt_now (utc_lib n) = n"
  by (simp_all add: utc_lib_def)

lemma utc_later_examples:
  "utc_fromtimestamp 1800000000 = Inr 1800000000000000"
  "utc_strftime 1800000000000000 ''%Y-%m'' = ''2027-01''"
  "utc_strftime 1800000000000000 ''%Y-%m-%d'' = ''2027-01-15''"
  by (simp_all add: utc_fromtimestamp_def utc_strftime_def calendar_defs
      pad2_def pad4_def digit_char_def)

text \<open>
  Claim C3, as the code has it. Let \<open>recent\<close> be the devices whose installation
  timestamp is strictly after the cutoff \<open>one_year_ago_epoch\<close> (the clock reading
  minus 365 days, as whole epoch seconds); the window has no upper end, so a device
  dated after the run is among them. If the library converts each of their timestamps,
  the growth chart is produced; its labels are the year-month labels of the recent
  devices, each once and in ascending order; the value under a label is the number of
  recent devices installed in that month, so devices at or before the cutoff count
  nowhere and the site plays no part; every recent device has its label among the
  labels; the values add up to the number of recent devices; and no label has the
  value zero. If the library rejects the timestamp of some recent device, the function
  raises and there is no series.
\<close>

theorem growth_series:
  assumes "recent = after_cutoff (one_year_ago_epoch L) cameras"
    and "months = sort (remdups (map (install_month L) recent))"
  shows "((\<forall>c\<in>set recent. converts L (date_added c)) \<longrightarrow>
           create_camera_growth_bar_graph L cameras =
             Inr \<lparr>chart_file = ''camera_growth_bar.png'',
                  chart_labels = months,
                  chart_values =
                    map (\<lambda>m. int (length (filter (\<lambda>c. install_month L c = m) recent))) months\<rparr>
           \<and> distinct months \<and> sorted months
           \<and> (\<forall>c\<in>set recent. install_month L c \<in> set months)
           \<and> (\<Sum>m\<leftarrow>months. int (length (filter (\<lambda>c. install_month L c = m) recent)))
                = int (length recent)
           \<and> (\<forall>m\<in>set months. 0 < length (filter (\<lambda>c. install_month L c = m) recent)))
         \<and> (\<not> (\<forall>c\<in>set recent. converts L (date_added c)) \<longrightarrow>
              (\<exists>e. create_camera_growth_bar_graph L cameras = Inl e))"
proof (intro conjI impI)
  assume conv: "\<forall>c\<in>set recent. converts L (date_added c)"
  show "create_camera_growth_bar_graph L cameras =
           Inr \<lparr>chart_file = ''camera_growth_bar.png'',
                chart_labels = months,
                chart_values =
                  map (\<lambda>m. int (length (filter (\<lambda>c. install_month L c = m) recent))) months\<rparr>"
    using growth_chart_closed_form [of L cameras] assms conv by simp
next
  show "distinct months" and "sorted months"
    by (simp_all add: assms(2))
next
  show "\<forall>c\<in>set recent. install_month L c \<in> set months"
    by (simp add: assms(2))
next
  have dist: "distinct months"
    by (simp add: assms(2))
  have "(\<Sum>m\<leftarrow>months. int (length (filter (\<lambda>x. x = m) (map (install_month L) recent))))
          = int (length (map (install_month L) recent))"
    by (rule sum_counts_distinct [OF dist]) (simp add: assms(2))
  then show "(\<Sum>m\<leftarrow>months. int (length (filter (\<lambda>c. install_month L c = m) recent)))
              = int (length recent)"
    by (simp add: comp_def)
next
  show "\<forall>m\<in>set months. 0 < length (filter (\<lambda>c. install_month L c = m) recent)"
  proof
    fix m assume "m \<in> set months"
    then obtain c where "c \<in> set recent" "install_month L c = m"
      by (auto simp: assms(2))
    then show "0 < length (filter (\<lambda>c. install_month L c = m) recent)"
      by (auto simp: filter_empty_conv)
  qed
next
  assume "\<not> (\<forall>c\<in>set recent. converts L (date_added c))"
  then show "\<exists>e. create_camera_growth_bar_graph L cameras = Inl e"
    unfolding assms(1) by (rule growth_chart_fails)
qed

theorem growth_series_witness:
  "create_camera_growth_bar_graph (utc_lib 1731542400500000)
      [device ''a'' ''West'' ''Live'' 1710000000,
       device ''b'' ''Arcade'' ''Live'' 1600000000,
       device ''c'' ''West'' ''Offline'' 1700006401,
       device ''d'' ''Mall'' ''Live'' 1710000100]
     = Inr \<lparr>chart_file = ''camera_growth_bar.png'',
            chart_labels = [''2023-11'', ''2024-03''],
            chart_values = [1, 2]\<rparr>
   \<and> (\<exists>e. create_camera_growth_bar_graph (utc_lib 1731542400500000)
            [device ''a'' ''West'' ''Live'' 1710000000,
             device ''e'' ''West'' ''Live'' 1000000000000] = Inl e)"
  using growth_series
    [of "[device ''a'' ''West'' ''Live'' 1710000000,
          device ''c'' ''West'' ''Offline'' 1700006401,
          device ''d'' ''Mall'' ''Live'' 1710000100]"
        "utc_lib 1731542400500000"
        "[device ''a'' ''West'' ''Live'' 1710000000,
          device ''b'' ''Arcade'' ''Live'' 1600000000,
          device ''c'' ''West'' ''Offline'' 1700006401,
          device ''d'' ''Mall'' ''Live'' 1710000100]"
        "[''2023-11'', ''2024-03'']"]
    growth_series
    [of "[device ''a'' ''West'' ''Live'' 1710000000,
          device ''e'' ''West'' ''Live'' 1000000000000]"
        "utc_lib 1731542400500000"
        "[device ''a'' ''West'' ''Live'' 1710000000,
          device ''e'' ''West'' ''Live'' 1000000000000]"
        "[[], ''2024-03'']"]
  by (simp add: utc_cutoff_example after_cutoff_def converts_def install_month_def device_def
      utc_lib_fields utc_fromtimestamp_examples utc_strftime_examples)

text \<open>
  The series is not always produced, and its window is not the trailing year only:
  with the clock at 2024-11-14, a device whose timestamp is in milliseconds lies after
  the cutoff and makes the function raise, so that it gets no bucket; and a device
  dated 2027-01-15, more than two years after the run, is counted.
\<close>

theorem growth_series_raises_or_counts_later_devices:
  "create_camera_growth_bar_graph (utc_lib 1731542400500000)
      [device ''e'' ''West'' ''Live'' 1000000000000]
     = Inl (ValueError ''year is out of range'')
   \<and> dt_timestamp (utc_lib 1731542400500000) (dt_now (utc_lib 1731542400500000)) < 1800000000
   \<and> create_camera_growth_bar_graph (utc_lib 1731542400500000)
      [device ''f'' ''West'' ''Live'' 1800000000]
     = Inr \<lparr>chart_file = ''camera_growth_bar.png'',
            chart_labels = [''2027-01''],
            chart_values = [1]\<rparr>"
proof -
  have "create_camera_growth_bar_graph (utc_lib 1731542400500000)
      [device ''e'' ''West'' ''Live'' 1000000000000]
     = Inl (ValueError ''year is out of range'')"
    by (simp add: create_camera_growth_bar_graph_def utc_cutoff_example device_def
        utc_lib_fields utc_fromtimestamp_examples)
  moreover have "dt_timestamp (utc_lib 1731542400500000) (dt_now (utc_lib 1731542400500000))
      < 1800000000"
    by (simp add: utc_lib_def)
  moreover have "create_camera_growth_bar_graph (utc_lib 1731542400500000)
      [device ''f'' ''West'' ''Live'' 1800000000]
     = Inr \<lparr>chart_file = ''camera_growth_bar.png'',
            chart_labels = [''2027-01''],
            chart_values = [1]\<rparr>"
    by (simp add: create_camera_growth_bar_graph_def utc_cutoff_example device_def
        utc_lib_fields utc_later_examples
        dict_contains_def dict_incr_def dict_get_def)
  ultimately show ?thesis by simp
qed

text \<open>
  Claim C9. The growth chart of a device list is the growth chart of its devices with
  installation timestamp strictly greater than the cutoff; a device whose timestamp
  equals the cutoff can be removed from the list without changing the chart; and
  whenever a chart is produced, its values add up to the number of devices strictly
  after the cutoff.
\<close>

theorem growth_window_strict:
  "create_camera_growth_bar_graph L cameras =
     create_camera_growth_bar_graph L (filter (\<lambda>c. one_year_ago_epoch L < date_added c) cameras)
   \<and> (date_added c = one_year_ago_epoch L \<longrightarrow>
        create_camera_growth_bar_graph L (xs @ c # ys) =
        create_camera_growth_bar_graph L (xs @ ys))
   \<and> (\<forall>g. create_camera_growth_bar_graph L cameras = Inr g \<longrightarrow>
          sum_list (chart_values g) =
          int (length (filter (\<lambda>c. one_year_ago_epoch L < date_added c) cameras)))"
proof (intro conjI impI allI)
  show "create_camera_growth_bar_graph L cameras =
     create_camera_growth_bar_graph L (filter (\<lambda>c. one_year_ago_epoch L < date_added c) cameras)"
    using growth_chart_skips [of L cameras] by (simp add: after_cutoff_def)
next
  assume "date_added c = one_year_ago_epoch L"
  then have "after_cutoff (one_year_ago_epoch L) (xs @ c # ys)
               = after_cutoff (one_year_ago_epoch L) (xs @ ys)"
    by (intro after_cutoff_drop) simp
  then show "create_camera_growth_bar_graph L (xs @ c # ys) =
        create_camera_growth_bar_graph L (xs @ ys)"
    using growth_chart_skips [of L "xs @ c # ys"] growth_chart_skips [of L "xs @ ys"]
    by simp
next
  fix g
  assume ok: "create_camera_growth_bar_graph L cameras = Inr g"
  let ?recent = "after_cutoff (one_year_ago_epoch L) cameras"
  let ?months = "sort (remdups (map (install_month L) ?recent))"
  have conv: "\<forall>c\<in>set ?recent. converts L (date_added c)"
    using growth_chart_fails [of L cameras] ok by auto
  from growth_chart_closed_form [OF conv] ok
  have g: "chart_values g =
      map (\<lambda>m. int (length (filter (\<lambda>c. install_month L c = m) ?recent))) ?months"
    by auto
  have "(\<Sum>m\<leftarrow>?months. int (length (filter (\<lambda>x. x = m) (map (install_month L) ?recent))))
          = int (length (map (install_month L) ?recent))"
    by (rule sum_counts_distinct) simp_all
  then have "sum_list (chart_values g) = int (length ?recent)"
    unfolding g by (simp add: comp_def)
  then show "sum_list (chart_values g) =
          int (length (filter (\<lambda>c. one_year_ago_epoch L < date_added c) cameras))"
    by (simp add: after_cutoff_def)
qed

theorem growth_window_strict_witness:
  "one_year_ago_epoch (utc_lib 1731542400500000) = 1700006400
   \<and> create_camera_growth_bar_graph (utc_lib 1731542400500000)
       [device ''a'' ''West'' ''Live'' 1700006400,
        device ''c'' ''West'' ''Offline'' 1700006401]
     = Inr \<lparr>chart_file = ''camera_growth_bar.png'',
            chart_labels = [''2023-11''],
            chart_values = [1]\<rparr>"
proof -
  have cut: "date_added (device ''a'' ''West'' ''Live'' 1700006400)
               = one_year_ago_epoch (utc_lib 1731542400500000)"
    by (simp add: utc_cutoff_example device_def)
  have one: "create_camera_growth_bar_graph (utc_lib 1731542400500000)
        [device ''c'' ''West'' ''Offline'' 1700006401]
     = Inr \<lparr>chart_file = ''camera_growth_bar.png'',
            chart_labels = [''2023-11''],
            chart_values = [1]\<rparr>"
    by (simp add: create_camera_growth_bar_graph_def utc_cutoff_example device_def
        utc_lib_fields utc_fromtimestamp_examples utc_strftime_examples
        dict_contains_def dict_incr_def dict_get_def)
  from growth_window_strict
    [of "utc_lib 1731542400500000" "[]" "device ''a'' ''West'' ''Live'' 1700006400" "[]"
        "[device ''c'' ''West'' ''Offline'' 1700006401]"]
    cut one utc_cutoff_example
  show ?thesis by simp
qed

section \<open>The report\<close>

lemma table_rows_unbound:
  "table_rows L (data, None) (c # cs) = Inl (first_row_fault L c)"
  by (simp add: first_row_fault_def increment_local_def split: sum.splits)

lemma site_sections_fault:
  "find (\<lambda>p. snd p \<noteq> []) sites = Some (s, c # cs) \<Longrightarrow>
     site_sections L (elements, None) sites = Inl (first_row_fault L c)"
proof (induction sites arbitrary: elements)
  case Nil
  then show ?case by simp
next
  case (Cons p sites)
  obtain s' cs' where p: "p = (s', cs')" by (cases p)
  show ?case
  proof (cases cs')
    case Nil
    with Cons.prems p have "find (\<lambda>p. snd p \<noteq> []) sites = Some (s, c # cs)" by simp
    from Cons.IH [OF this] p Nil show ?thesis by (simp add: Let_def)
  next
    case (Cons c' cs'')
    with Cons.prems p have "c' = c" by simp
    with p Cons show ?thesis by (simp add: Let_def table_rows_unbound del: table_rows.simps)
  qed
qed

lemma site_sections_no_devices:
  "\<forall>p\<in>set sites. snd p = [] \<Longrightarrow>
     site_sections L (elements, cnt) sites =
       Inr (elements @ concat (map (\<lambda>p. empty_site_section (fst p)) sites), cnt)"
proof (induction sites arbitrary: elements)
  case Nil
  show ?case by simp
next
  case (Cons p sites)
  obtain s cs where p: "p = (s, cs)" by (cases p)
  with Cons.prems have "cs = []" and "\<forall>p\<in>set sites. snd p = []" by simp_all
  with Cons.IH p show ?case by (simp add: Let_def empty_site_section_def)
qed

lemma find_nonempty_exists:
  "\<exists>p\<in>set sites. snd p \<noteq> [] \<Longrightarrow>
     \<exists>s c cs. find (\<lambda>p. snd p \<noteq> []) (sort_key fst sites) = Some (s, c # cs)"
proof -
  assume "\<exists>p\<in>set sites. snd p \<noteq> []"
  then have "\<exists>p\<in>set (sort_key fst sites). snd p \<noteq> []" by simp
  then obtain p where "find (\<lambda>p. snd p \<noteq> []) (sort_key fst sites) = Some p"
    by (cases "find (\<lambda>p. snd p \<noteq> []) (sort_key fst sites)") (auto simp: find_None_iff)
  moreover from this have "snd p \<noteq> []" by (auto simp: find_Some_iff)
  ultimately show ?thesis by (cases p; cases "snd p") auto
qed

text \<open>
  What the code does where the slip cannot strike: a report of device-free sites has
  its sections in ascending order of the labels, and a device table whose counter were
  bound would get one row per device, in order. Neither is reachable from a device
  list, since grouping gives every site at least one device.
\<close>

lemma report_without_devices:
  assumes "\<forall>p\<in>set sites. snd p = []"
  shows "create_pdf_report L sites =
     Inr \<lparr>doc_filename = ''Verkada_Camera_Report.pdf'',
          doc_header = ''Report Date: '' @ dt_strftime L (dt_now L) ''%Y-%m-%d'',
          doc_elements =
            cover_elements @ concat (map (\<lambda>p. empty_site_section (fst p)) (sort_key fst sites))\<rparr>"
proof -
  from assms have "\<forall>p\<in>set (sort_key fst sites). snd p = []" by simp
  from site_sections_no_devices [OF this, of L cover_elements None] show ?thesis
    by (simp add: create_pdf_report_def)
qed

lemma table_rows_bound:
  "\<forall>c\<in>set cs. converts L (date_added c) \<Longrightarrow>
     table_rows L (data, Some n) cs = Inr (data @ map (device_row L) cs, Some (n + int (length cs)))"
proof (induction cs arbitrary: data n)
  case Nil
  show ?case by simp
next
  case (Cons c cs)
  then obtain d where "dt_fromtimestamp L (date_added c) = Inr d"
    by (auto simp: converts_def split: sum.splits)
  with Cons show ?case
    by (simp add: Let_def increment_local_def device_row_def)
qed

lemma sections_sorted_without_devices:
  assumes "\<forall>p\<in>set sites. snd p = []"
  shows "\<exists>labels. sorted labels \<and> mset labels = mset (map fst sites) \<and>
           create_pdf_report L sites =
             Inr \<lparr>doc_filename = ''Verkada_Camera_Report.pdf'',
                  doc_header = ''Report Date: '' @ dt_strftime L (dt_now L) ''%Y-%m-%d'',
                  doc_elements = cover_elements @ concat (map empty_site_section labels)\<rparr>"
proof -
  have "sorted (map fst (sort_key fst sites))"
    by simp
  moreover have "mset (map fst (sort_key fst sites)) = mset (map fst sites)"
    by simp
  moreover have "create_pdf_report L sites =
             Inr \<lparr>doc_filename = ''Verkada_Camera_Report.pdf'',
                  doc_header = ''Report Date: '' @ dt_strftime L (dt_now L) ''%Y-%m-%d'',
                  doc_elements =
                    cover_elements @ concat (map empty_site_section (map fst (sort_key fst sites)))\<rparr>"
    using report_without_devices [OF assms, of L] by (simp add: comp_def)
  ultimately show ?thesis by blast
qed

text \<open>
  Through the pipeline: grouping a non-empty device list yields a site that has a
  device, so once any device has been fetched \<open>main\<close> ends with a fault and never
  with a report.
\<close>

lemma grouping_has_a_device:
  assumes "cameras \<noteq> []"
  shows "\<exists>p\<in>set (group_cameras_by_site cameras). snd p \<noteq> []"
proof -
  from assms obtain c cs where cameras: "cameras = c # cs"
    by (cases cameras) auto
  let ?l = "filter (\<lambda>c'. site c' = site c) cameras"
  have "map_of (group_cameras_by_site cameras) (site c) = Some ?l"
    using group_loop_lookup [of "[]" cameras "site c"] cameras
    by (simp add: group_cameras_by_site_def entry_or_empty_def)
  then have "(site c, ?l) \<in> set (group_cameras_by_site cameras)"
    by (rule map_of_SomeD)
  moreover have "?l \<noteq> []"
    by (simp add: cameras)
  ultimately show ?thesis by force
qed

lemma main_never_reports:
  assumes "cameras \<noteq> []"
  shows "\<exists>e. main_after_fetch L cameras = Inl e"
proof -
  from grouping_has_a_device [OF assms] find_nonempty_exists
  obtain s c cs where
    "find (\<lambda>p. snd p \<noteq> []) (sort_key fst (group_cameras_by_site cameras)) = Some (s, c # cs)"
    by blast
  from site_sections_fault [OF this, of L cover_elements]
  have "create_pdf_report L (group_cameras_by_site cameras) = Inl (first_row_fault L c)"
    by (simp add: create_pdf_report_def)
  then show ?thesis
    by (auto simp: main_after_fetch_def Let_def split: sum.splits)
qed

text \<open>
  Claim C10. For the empty sites mapping \<open>create_pdf_report\<close> raises nothing: the
  loop over the sites has no iteration, \<^verbatim>\<open>count\<close> is never read, and the document
  handed to \<^verbatim>\<open>doc.build\<close> has the date header and exactly the cover flowables
  (spacer, logo, spacer, title block, spacer).
\<close>

theorem empty_report_is_cover_only:
  "create_pdf_report L [] =
     Inr \<lparr>doc_filename = ''Verkada_Camera_Report.pdf'',
          doc_header = ''Report Date: '' @ dt_strftime L (dt_now L) ''%Y-%m-%d'',
          doc_elements =
            [Spacer 1 12,
             Image ''verkada_logo.png'' 100 50,
             Spacer 1 12,
             Table [[''Verkada Install Site Report'']] None (title_style 14 12),
             Spacer 1 12]\<rparr>"
  by (simp add: create_pdf_report_def cover_elements_def)

theorem empty_report_is_cover_only_witness:
  "create_pdf_report (utc_lib 1731542400500000) [] =
     Inr \<lparr>doc_filename = ''Verkada_Camera_Report.pdf'',
          doc_header = ''Report Date: 2024-11-14'',
          doc_elements = cover_elements\<rparr>"
  using empty_report_is_cover_only [of "utc_lib 1731542400500000"]
  by (simp add: utc_lib_fields utc_strftime_examples cover_elements_def)

text \<open>
  Claim C2, as the code has it. For every sites mapping in which some site has a
  device, \<open>create_pdf_report\<close> raises at the first device row, that is at the first
  device of the first site, in label order, that has one, and produces no document.
  The fault is the date conversion's own when the library rejects that device's
  timestamp, since line 131 runs before line 138; otherwise it is the unbound local
  \<^verbatim>\<open>count\<close>.
\<close>

theorem report_faults_at_first_device_row:
  assumes "\<exists>p\<in>set sites. snd p \<noteq> []"
  shows "\<exists>s c cs. find (\<lambda>p. snd p \<noteq> []) (sort_key fst sites) = Some (s, c # cs)
           \<and> create_pdf_report L sites =
               Inl (case dt_fromtimestamp L (date_added c) of
                      Inl e \<Rightarrow> e
                    | Inr d \<Rightarrow> UnboundLocalError ''count'')"
proof -
  from find_nonempty_exists [OF assms] obtain s c cs
    where f: "find (\<lambda>p. snd p \<noteq> []) (sort_key fst sites) = Some (s, c # cs)"
    by blast
  from site_sections_fault [OF f, of L cover_elements]
  have "create_pdf_report L sites = Inl (first_row_fault L c)"
    by (simp add: create_pdf_report_def)
  with f show ?thesis unfolding first_row_fault_def by blast
qed

theorem report_faults_at_first_device_row_witness:
  "create_pdf_report (utc_lib 1731542400500000)
      [(''West'', [device ''a'' ''West'' ''Live'' 1710000000]),
       (''Arcade'', [device ''c'' ''Arcade'' ''Offline'' 1700006401])]
     = Inl (UnboundLocalError ''count'')"
  using report_faults_at_first_device_row
    [of "[(''West'', [device ''a'' ''West'' ''Live'' 1710000000]),
          (''Arcade'', [device ''c'' ''Arcade'' ''Offline'' 1700006401])]"
        "utc_lib 1731542400500000"]
  by (simp add: utc_lib_fields utc_fromtimestamp_examples device_def)

text \<open>
  The fault is not always the unbound local: a timestamp in milliseconds lies beyond
  the year 9999, and the conversion raises first.
\<close>

theorem report_fault_can_be_the_date_conversion:
  "create_pdf_report (utc_lib 1731542400500000)
      [(''Lobby'', [device ''a'' ''Lobby'' ''Live'' 1000000000000])]
     = Inl (ValueError ''year is out of range'')
   \<and> create_pdf_report (utc_lib 1731542400500000)
      [(''Lobby'', [device ''a'' ''Lobby'' ''Live'' 1000000000000])]
     \<noteq> Inl (UnboundLocalError ''count'')"
proof -
  have "find (\<lambda>p. snd p \<noteq> []) [(''Lobby'', [device ''a'' ''Lobby'' ''Live'' 1000000000000])]
          = Some (''Lobby'', [device ''a'' ''Lobby'' ''Live'' 1000000000000])"
    by simp
  from site_sections_fault [OF this, of "utc_lib 1731542400500000" cover_elements]
  have "create_pdf_report (utc_lib 1731542400500000)
      [(''Lobby'', [device ''a'' ''Lobby'' ''Live'' 1000000000000])]
     = Inl (ValueError ''year is out of range'')"
    by (simp add: create_pdf_report_def first_row_fault_def utc_lib_fields
        utc_fromtimestamp_examples device_def)
  then show ?thesis by simp
qed

text \<open>
  Claim C6, on the code. For the sites West, Arcade and Mall with one device each, no
  report with sections in the order Arcade, Mall, West is produced:
  \<open>create_pdf_report\<close> raises on the unbound \<^verbatim>\<open>count\<close> at the device row of Arcade,
  the first site in label order.
\<close>

theorem report_for_three_sites_faults:
  "create_pdf_report (utc_lib 1731542400500000)
      [(''West'', [device ''w'' ''West'' ''Live'' 1710000000]),
       (''Arcade'', [device ''a'' ''Arcade'' ''Live'' 1700006401]),
       (''Mall'', [device ''m'' ''Mall'' ''Offline'' 1710000100])]
     = Inl (UnboundLocalError ''count'')"
proof -
  have "find (\<lambda>p. snd p \<noteq> [])
          (sort_key fst
            [(''West'', [device ''w'' ''West'' ''Live'' 1710000000]),
             (''Arcade'', [device ''a'' ''Arcade'' ''Live'' 1700006401]),
             (''Mall'', [device ''m'' ''Mall'' ''Offline'' 1710000100])])
          = Some (''Arcade'', [device ''a'' ''Arcade'' ''Live'' 1700006401])"
    by simp
  from site_sections_fault [OF this, of "utc_lib 1731542400500000" cover_elements]
  show ?thesis
    by (simp add: create_pdf_report_def first_row_fault_def utc_lib_fields
        utc_fromtimestamp_examples device_def)
qed

text \<open>
  Claim C8, on the code. For a site with one device no device table is produced: the
  loop over the devices raises on the unbound \<^verbatim>\<open>count\<close> right after appending the
  first row, and so does \<open>create_pdf_report\<close>.
\<close>

theorem report_for_one_device_faults:
  "create_pdf_report (utc_lib 1731542400500000)
      [(''Lobby'', [device ''cam'' ''Lobby'' ''Live'' 1700006401])]
     = Inl (UnboundLocalError ''count'')
   \<and> table_rows (utc_lib 1731542400500000) ([table_header], None)
        [device ''cam'' ''Lobby'' ''Live'' 1700006401]
     = Inl (UnboundLocalError ''count'')"
proof -
  have "find (\<lambda>p. snd p \<noteq> []) [(''Lobby'', [device ''cam'' ''Lobby'' ''Live'' 1700006401])]
          = Some (''Lobby'', [device ''cam'' ''Lobby'' ''Live'' 1700006401])"
    by simp
  from site_sections_fault [OF this, of "utc_lib 1731542400500000" cover_elements]
  have "create_pdf_report (utc_lib 1731542400500000)
      [(''Lobby'', [device ''cam'' ''Lobby'' ''Live'' 1700006401])]
     = Inl (UnboundLocalError ''count'')"
    by (simp add: create_pdf_report_def first_row_fault_def utc_lib_fields
        utc_fromtimestamp_examples device_def)
  moreover have "table_rows (utc_lib 1731542400500000) ([table_header], None)
        [device ''cam'' ''Lobby'' ''Live'' 1700006401]
     = Inl (UnboundLocalError ''count'')"
    by (simp add: table_rows_unbound first_row_fault_def utc_lib_fields
        utc_fromtimestamp_examples device_def del: table_rows.simps)
  ultimately show ?thesis by simp
qed

end
